theory Spec2Isabelle
  imports Main "HOL-Library.Word" "HOL-Library.Sublist" "HOL-Library.AList"
begin

unbundle bit_operations_syntax

section \<open>JavaScript values\<close>

text \<open>
  The user-data manager \<^verbatim>\<open>EmiralUserData\<close> of \<^verbatim>\<open>src/js/auth-popups.js\<close> works on
  plain JavaScript data: the records it reads from and writes to \<^verbatim>\<open>localStorage\<close> are
  JSON. A value is modelled by \<open>jsval\<close>; an object is an association list in insertion
  order with unique keys. Numbers are integers or \<open>NaN\<close> (the catalogue and the records
  hold no fractions; the floating-point mock metrics are a parameter, see \<open>env\<close>).
  Strings are HOL strings; the model is exact for ASCII code units.
\<close>

datatype jsval =
    JUndef
  | JNull
  | JBool bool
  | JNum int
  | JNaN
  | JStr string
  | JArr "jsval list"
  | JObj "(string \<times> jsval) list"

text \<open>What a \<^verbatim>\<open>throw\<close> carries. \<open>TypeError\<close> is raised by the engine (a property read
  on \<^verbatim>\<open>undefined\<close>/\<^verbatim>\<open>null\<close>, a call of something that is no function), \<open>Error\<close> by
  the program's own \<^verbatim>\<open>throw new Error(...)\<close>.\<close>

datatype error = TypeError | Error string

text \<open>\<^verbatim>\<open>if (v)\<close>, \<^verbatim>\<open>!v\<close>, \<^verbatim>\<open>a || b\<close>: the truthiness of a value.\<close>

fun truthy :: "jsval \<Rightarrow> bool" where
  "truthy JUndef = False"
| "truthy JNull = False"
| "truthy (JBool b) = b"
| "truthy (JNum n) = (n \<noteq> 0)"
| "truthy JNaN = False"
| "truthy (JStr s) = (s \<noteq> [])"
| "truthy (JArr xs) = True"
| "truthy (JObj kvs) = True"

definition orElse :: "jsval \<Rightarrow> jsval \<Rightarrow> jsval" where
  "orElse a b = (if truthy a then a else b)"

text \<open>\<^verbatim>\<open>typeof v === 'object'\<close> on a truthy value: objects and arrays.\<close>

fun isObjectType :: "jsval \<Rightarrow> bool" where
  "isObjectType (JArr xs) = True"
| "isObjectType (JObj kvs) = True"
| "isObjectType v = False"

subsection \<open>Numbers and strings\<close>

definition digit :: "nat \<Rightarrow> char" where
  "digit d = char_of (48 + d)"

function showNat :: "nat \<Rightarrow> string" where
  "showNat n = (if n < 10 then [digit n] else showNat (n div 10) @ [digit (n mod 10)])"
  by pat_completeness auto
termination
  by (relation "measure (\<lambda>n. n)") auto

declare showNat.simps [simp del]

definition showInt :: "int \<Rightarrow> string" where
  "showInt i = (if i < 0 then CHR ''-'' # showNat (nat (- i)) else showNat (nat i))"

text \<open>\<^verbatim>\<open>String(v)\<close>, as used when a value becomes a property key or the subject of a
  regular expression. An array joins its elements with commas (\<^verbatim>\<open>null\<close> and
  \<^verbatim>\<open>undefined\<close> elements print as nothing), an object prints as \<^verbatim>\<open>[object Object]\<close>.\<close>

fun joinComma :: "string list \<Rightarrow> string" where
  "joinComma [] = []"
| "joinComma [s] = s"
| "joinComma (s # t # r) = s @ '','' @ joinComma (t # r)"

fun toStr :: "jsval \<Rightarrow> string" where
  "toStr JUndef = ''undefined''"
| "toStr JNull = ''null''"
| "toStr (JBool b) = (if b then ''true'' else ''false'')"
| "toStr (JNum n) = showInt n"
| "toStr JNaN = ''NaN''"
| "toStr (JStr s) = s"
| "toStr (JArr xs) =
     joinComma (map (\<lambda>x. if x = JUndef \<or> x = JNull then [] else toStr x) xs)"
| "toStr (JObj kvs) = ''[object Object]''"

text \<open>White space of the regular-expression class \<^verbatim>\<open>\s\<close> (and of \<^verbatim>\<open>trim\<close>) among the
  code units below 256: tab, line feed, vertical tab, form feed, carriage return, space
  and the no-break space.\<close>

definition isSpace :: "char \<Rightarrow> bool" where
  "isSpace c = (of_char c \<in> {9, 10, 11, 12, 13, 32, 160 :: nat})"

definition toLowerCase :: "string \<Rightarrow> string" where
  "toLowerCase s =
     map (\<lambda>c. let n = (of_char c :: nat) in if 65 \<le> n \<and> n \<le> 90 then char_of (n + 32) else c) s"

definition toUpperCase :: "string \<Rightarrow> string" where
  "toUpperCase s =
     map (\<lambda>c. let n = (of_char c :: nat) in if 97 \<le> n \<and> n \<le> 122 then char_of (n - 32) else c) s"

definition trim :: "string \<Rightarrow> string" where
  "trim s = rev (dropWhile isSpace (rev (dropWhile isSpace s)))"

text \<open>\<^verbatim>\<open>s.split(/\s+/)\<close>: the pieces between maximal runs of white space. The empty string
  gives one empty piece; a leading or trailing run gives an empty first or last piece.\<close>

function splitWs :: "string \<Rightarrow> string \<Rightarrow> string list" where
  "splitWs acc [] = [rev acc]"
| "splitWs acc (c # cs) =
     (if isSpace c then rev acc # splitWs [] (dropWhile isSpace cs)
      else splitWs (c # acc) cs)"
  by pat_completeness auto
termination
  by (relation "measure (\<lambda>(acc, s). length s)")
     (auto simp: less_Suc_eq_le length_dropWhile_le)

subsection \<open>Properties, spread and JSON\<close>

text \<open>The index keys of an array or string of length \<open>n\<close>.\<close>

definition indexKey :: "nat \<Rightarrow> string \<Rightarrow> nat option" where
  "indexKey n k = List.find (\<lambda>i. showNat i = k) [0..<n]"

text \<open>The own property \<open>k\<close> of a value, if it has one.\<close>

fun own :: "jsval \<Rightarrow> string \<Rightarrow> jsval option" where
  "own (JObj kvs) k = map_of kvs k"
| "own (JArr xs) k =
     (if k = ''length'' then Some (JNum (int (length xs)))
      else map_option (\<lambda>i. xs ! i) (indexKey (length xs) k))"
| "own (JStr s) k =
     (if k = ''length'' then Some (JNum (int (length s)))
      else map_option (\<lambda>i. JStr [s ! i]) (indexKey (length s) k))"
| "own v k = None"

text \<open>\<^verbatim>\<open>v.k\<close> for the property names the program writes out (\<^verbatim>\<open>planId\<close>, \<^verbatim>\<open>email\<close>,
  \<^verbatim>\<open>name\<close>, ...): none of them is inherited from a prototype, so the read is the own
  property or \<^verbatim>\<open>undefined\<close>. On \<^verbatim>\<open>undefined\<close> and \<^verbatim>\<open>null\<close> the read throws.\<close>

definition getProp :: "jsval \<Rightarrow> string \<Rightarrow> jsval" where
  "getProp v k = (case own v k of Some x \<Rightarrow> x | None \<Rightarrow> JUndef)"

definition readProp :: "jsval \<Rightarrow> string \<Rightarrow> error + jsval" where
  "readProp v k = (if v = JUndef \<or> v = JNull then Inl TypeError else Inr (getProp v k))"

text \<open>\<^verbatim>\<open>v?.k\<close>\<close>

definition optProp :: "jsval \<Rightarrow> string \<Rightarrow> jsval" where
  "optProp v k = (if v = JUndef \<or> v = JNull then JUndef else getProp v k)"

text \<open>\<^verbatim>\<open>{...v}\<close>: the own enumerable properties of \<open>v\<close>, none for a primitive other than
  a string.\<close>

fun spread :: "jsval \<Rightarrow> (string \<times> jsval) list" where
  "spread (JObj kvs) = kvs"
| "spread (JArr xs) = zip (map showNat [0..<length xs]) xs"
| "spread (JStr s) = zip (map showNat [0..<length s]) (map (\<lambda>c. JStr [c]) s)"
| "spread v = []"

text \<open>\<^verbatim>\<open>{...base, ...more}\<close>: later properties overwrite earlier ones in place, new ones are
  appended.\<close>

definition assign :: "(string \<times> jsval) list \<Rightarrow> (string \<times> jsval) list \<Rightarrow> (string \<times> jsval) list" where
  "assign base more = foldl (\<lambda>acc p. AList.update (fst p) (snd p) acc) base more"

text \<open>\<^verbatim>\<open>const { k1, ..., kn, ...rest } = obj\<close>: the rest object.\<close>

definition restWithout :: "string list \<Rightarrow> (string \<times> jsval) list \<Rightarrow> (string \<times> jsval) list" where
  "restWithout ks kvs = filter (\<lambda>p. fst p \<notin> set ks) kvs"

text \<open>\<^verbatim>\<open>JSON.parse(JSON.stringify(v))\<close> for a value that serialises: properties holding
  \<^verbatim>\<open>undefined\<close> are dropped, \<^verbatim>\<open>undefined\<close> array elements and \<^verbatim>\<open>NaN\<close> become
  \<^verbatim>\<open>null\<close>.\<close>

fun jsonClean :: "jsval \<Rightarrow> jsval" where
  "jsonClean (JObj kvs) =
     JObj (filter (\<lambda>p. snd p \<noteq> JUndef) (map (\<lambda>p. (fst p, jsonClean (snd p))) kvs))"
| "jsonClean (JArr xs) = JArr (map (\<lambda>x. if x = JUndef then JNull else jsonClean x) xs)"
| "jsonClean JNaN = JNull"
| "jsonClean v = v"

text \<open>\<^verbatim>\<open>v.includes(needle)\<close> with a string needle: substring test on a string, membership
  on an array; anything else has no callable \<^verbatim>\<open>includes\<close>.\<close>

fun includes_js :: "jsval \<Rightarrow> string \<Rightarrow> error + bool" where
  "includes_js (JStr s) needle = Inr (sublist needle s)"
| "includes_js (JArr xs) needle = Inr (JStr needle \<in> set xs)"
| "includes_js v needle = Inl TypeError"

section \<open>Configuration: storage keys and the plan catalogue\<close>

definition prefix_key :: string where "prefix_key = ''emiralai_''"
definition userDataKey :: string where "userDataKey = ''user_data''"
definition subscriptionKey :: string where "subscriptionKey = ''subscription''"
definition settingsKey :: string where "settingsKey = ''settings''"

definition plan_free :: jsval where
  "plan_free = JObj [
     (''id'', JStr ''free''), (''name'', JStr ''Free Plan''), (''displayName'', JStr ''Free''),
     (''price'', JNum 0), (''apiLimit'', JNum 1000), (''storageLimit'', JStr ''10GB''),
     (''modelsLimit'', JNum 3), (''projectsLimit'', JNum 5),
     (''supportLevel'', JStr ''community''),
     (''features'', JArr [JStr ''Basic AI features'', JStr ''Community support'',
        JStr ''Standard processing speed'', JStr ''Basic analytics'']),
     (''color'', JStr ''#6c757d''), (''icon'', JStr ''fas fa-user'')]"

definition plan_basic :: jsval where
  "plan_basic = JObj [
     (''id'', JStr ''basic''), (''name'', JStr ''Basic Plan''), (''displayName'', JStr ''Basic''),
     (''price'', JNum 29), (''apiLimit'', JNum 10000), (''storageLimit'', JStr ''50GB''),
     (''modelsLimit'', JNum 10), (''projectsLimit'', JNum 20),
     (''supportLevel'', JStr ''email''),
     (''features'', JArr [JStr ''All Free features'', JStr ''Advanced AI implementation'',
        JStr ''Email support (48h response)'', JStr ''Custom model training'',
        JStr ''API access'', JStr ''Data export'']),
     (''color'', JStr ''#17a2b8''), (''icon'', JStr ''fas fa-star'')]"

definition plan_pro :: jsval where
  "plan_pro = JObj [
     (''id'', JStr ''pro''), (''name'', JStr ''Pro Plan''), (''displayName'', JStr ''Professional''),
     (''price'', JNum 99), (''apiLimit'', JNum 100000), (''storageLimit'', JStr ''500GB''),
     (''modelsLimit'', JNum 50), (''projectsLimit'', JNum 100),
     (''supportLevel'', JStr ''priority''),
     (''features'', JArr [JStr ''All Basic features'', JStr ''Priority support (12h response)'',
        JStr ''Advanced analytics & insights'', JStr ''Team collaboration (5 users)'',
        JStr ''Custom integrations'', JStr ''White-label options'',
        JStr ''Advanced API features'']),
     (''color'', JStr ''#6f42c1''), (''icon'', JStr ''fas fa-crown'')]"

definition plan_enterprise :: jsval where
  "plan_enterprise = JObj [
     (''id'', JStr ''enterprise''), (''name'', JStr ''Enterprise Plan''),
     (''displayName'', JStr ''Enterprise''),
     (''price'', JNum 299), (''apiLimit'', JNum (- 1)), (''storageLimit'', JStr ''Unlimited''),
     (''modelsLimit'', JNum (- 1)), (''projectsLimit'', JNum (- 1)),
     (''supportLevel'', JStr ''dedicated''),
     (''features'', JArr [JStr ''All Pro features'', JStr ''Dedicated support manager'',
        JStr ''Unlimited everything'', JStr ''Custom development'', JStr ''SLA guarantee'',
        JStr ''On-premise deployment'', JStr ''Unlimited team members'',
        JStr ''Advanced security features'']),
     (''color'', JStr ''#dc3545''), (''icon'', JStr ''fas fa-building'')]"

text \<open>\<^verbatim>\<open>config.plans\<close>, in the order of the object literal.\<close>

definition plans :: "(string \<times> jsval) list" where
  "plans = [(''free'', plan_free), (''basic'', plan_basic), (''pro'', plan_pro),
            (''enterprise'', plan_enterprise)]"

text \<open>\<^verbatim>\<open>Object.keys(this.config.plans)\<close>\<close>

definition planHierarchy :: "string list" where
  "planHierarchy = map fst plans"

text \<open>\<^verbatim>\<open>planHierarchy.indexOf(v)\<close>: strict equality, so only a string can be found;
  \<open>- 1\<close> when absent.\<close>

fun indexOf :: "string list \<Rightarrow> string \<Rightarrow> int" where
  "indexOf [] k = - 1"
| "indexOf (x # xs) k =
     (if x = k then 0 else (let i = indexOf xs k in if i < 0 then - 1 else i + 1))"

fun planIndex :: "jsval \<Rightarrow> int" where
  "planIndex (JStr k) = indexOf planHierarchy k"
| "planIndex v = - 1"

text \<open>
  \<^verbatim>\<open>this.config.plans[key]\<close>. The catalogue is an object literal, so besides its own four
  entries the read also finds what every object inherits from \<^verbatim>\<open>Object.prototype\<close>: a
  key such as \<^verbatim>\<open>constructor\<close> or \<^verbatim>\<open>toString\<close> yields a (truthy) built-in, which is no
  plan. The key is converted to a string first.
\<close>

datatype planref = Own jsval | Inherited string | Missing

definition objectProtoNames :: "string list" where
  "objectProtoNames = [''constructor'', ''__proto__'', ''hasOwnProperty'', ''isPrototypeOf'',
     ''propertyIsEnumerable'', ''toLocaleString'', ''toString'', ''valueOf'',
     ''__defineGetter__'', ''__defineSetter__'', ''__lookupGetter__'', ''__lookupSetter__'']"

definition plansLookup :: "jsval \<Rightarrow> planref" where
  "plansLookup key =
     (case map_of plans (toStr key) of
        Some p \<Rightarrow> Own p
      | None \<Rightarrow> if toStr key \<in> set objectProtoNames then Inherited (toStr key) else Missing)"

text \<open>A read \<^verbatim>\<open>planData.k\<close> on what the lookup gave (never on \<open>Missing\<close>, which the callers
  replace or reject first). The inherited built-ins are functions whose \<^verbatim>\<open>name\<close> is their
  own name (\<^verbatim>\<open>Object\<close> for the constructor); \<^verbatim>\<open>__proto__\<close> is the prototype object,
  which has no \<^verbatim>\<open>name\<close>.\<close>

definition planProp :: "planref \<Rightarrow> string \<Rightarrow> jsval" where
  "planProp r k =
     (case r of
        Own p \<Rightarrow> getProp p k
      | Inherited n \<Rightarrow>
          (if k = ''name'' \<and> n \<noteq> ''__proto__''
           then JStr (if n = ''constructor'' then ''Object'' else n) else JUndef)
      | Missing \<Rightarrow> JUndef)"

section \<open>The environment of a call\<close>

text \<open>
  What a call takes from the browser and cannot compute from the manager's own state:
  the clock, the random draw of \<^verbatim>\<open>_generateUserId\<close>, the \<^verbatim>\<open>Date\<close> built-ins (parsing,
  ISO and locale printing, calendar arithmetic in local time), the floating-point mock
  metrics of \<^verbatim>\<open>_calculateUsage\<close> (they go through \<^verbatim>\<open>Math.sin\<close>), whether a registered
  listener throws on a payload, and whether \<^verbatim>\<open>window.BroadcastChannel\<close> exists. Every
  \<^verbatim>\<open>new Date()\<close> of one synchronous call reads the same instant \<open>now\<close>, in
  milliseconds since the epoch.
\<close>

record env =
  now :: int
  randomId :: string
  parseDate :: "string \<Rightarrow> int option"
  toISOString :: "int \<Rightarrow> string"
  toLocaleDateString :: "int option \<Rightarrow> string"
  plusYears100 :: "int \<Rightarrow> int"
  plusDays30 :: "int \<Rightarrow> int"
  mockUsage :: "jsval \<Rightarrow> int \<Rightarrow> (string \<times> jsval) list"
  listenerThrows :: "nat \<Rightarrow> jsval \<Rightarrow> bool"
  broadcastChannel :: bool

text \<open>\<^verbatim>\<open>new Date(v)\<close> as a time value; \<open>None\<close> is the invalid date.\<close>

fun toDate :: "env \<Rightarrow> jsval \<Rightarrow> int option" where
  "toDate e JUndef = None"
| "toDate e JNull = Some 0"
| "toDate e (JBool b) = Some (if b then 1 else 0)"
| "toDate e (JNum n) = (if \<bar>n\<bar> \<le> 8640000000000000 then Some n else None)"
| "toDate e JNaN = None"
| "toDate e (JStr s) = parseDate e s"
| "toDate e (JArr xs) = parseDate e (toStr (JArr xs))"
| "toDate e (JObj kvs) = parseDate e (toStr (JObj kvs))"

section \<open>The manager's state\<close>

text \<open>
  \<^verbatim>\<open>localStorage\<close> holds text. An entry is seen through \<^verbatim>\<open>JSON.parse\<close>: \<open>Parsed v\<close> for
  text that parses to \<open>v\<close>, \<open>Unparsable\<close> for text on which \<^verbatim>\<open>JSON.parse\<close> throws. The model
  is the manager with a working \<^verbatim>\<open>localStorage\<close> (\<^verbatim>\<open>_useMemoryStorage\<close> unset, every
  \<^verbatim>\<open>setItem\<close> accepted).

  The registered listeners are numbered; \<open>listeners s ev\<close> is the \<^verbatim>\<open>Set\<close> registered for
  \<open>ev\<close> in insertion order. A listener does not call back into the manager.

  \<open>effects\<close> is the trace of what a call does to the outside, in the order it does it:
  console lines, listener invocations, events dispatched on \<^verbatim>\<open>window\<close>, cross-tab
  messages, the writes and removals on \<^verbatim>\<open>localStorage\<close>, the cleared timer.
\<close>

datatype stored = Parsed jsval | Unparsable

datatype effect =
    Console string string
  | Invoke nat jsval
  | WindowEvent string jsval
  | PostMessage string jsval
  | SetItem string stored
  | RemoveItem string
  | ClearInterval

record state =
  storage :: "string \<Rightarrow> stored option"
  currentUser :: jsval
  listeners :: "string \<Rightarrow> nat list"
  syncInterval :: bool
  offlineQueue :: "jsval list"
  enableNotifications :: bool
  enableAutoSave :: bool
  enableOfflineMode :: bool
  debugMode :: bool
  enableCustomEvents :: bool
  logEvents :: bool
  effects :: "effect list"

definition emit :: "effect \<Rightarrow> state \<Rightarrow> state" where
  "emit x s = s\<lparr>effects := effects s @ [x]\<rparr>"

text \<open>\<^verbatim>\<open>log(level, ...args)\<close>\<close>

definition log :: "string \<Rightarrow> string \<Rightarrow> state \<Rightarrow> state" where
  "log level msg s = (if debugMode s \<or> level = ''error'' then emit (Console level msg) s else s)"

subsection \<open>Storage abstraction\<close>

definition getFromStorage :: "string \<Rightarrow> state \<Rightarrow> jsval \<times> state" where
  "getFromStorage key s =
     (case storage s (prefix_key @ key) of
        None \<Rightarrow> (JNull, s)
      | Some (Parsed v) \<Rightarrow> (v, s)
      | Some Unparsable \<Rightarrow>
          (JNull, log ''error'' (''Error reading from storage ('' @ key @ ''):'') s))"

text \<open>\<^verbatim>\<open>JSON.stringify(undefined)\<close> is \<^verbatim>\<open>undefined\<close>, stored as the text
  \<^verbatim>\<open>undefined\<close>, which does not parse.\<close>

definition serialized :: "jsval \<Rightarrow> stored" where
  "serialized v = (if v = JUndef then Unparsable else Parsed (jsonClean v))"

text \<open>\<^verbatim>\<open>localStorage.setItem\<close> and \<^verbatim>\<open>localStorage.removeItem\<close> on a full key.\<close>

definition setItem :: "string \<Rightarrow> stored \<Rightarrow> state \<Rightarrow> state" where
  "setItem fullKey x s = emit (SetItem fullKey x) (s\<lparr>storage := (storage s)(fullKey := Some x)\<rparr>)"

definition removeItem :: "string \<Rightarrow> state \<Rightarrow> state" where
  "removeItem fullKey s = emit (RemoveItem fullKey) (s\<lparr>storage := (storage s)(fullKey := None)\<rparr>)"

definition saveToStorage :: "string \<Rightarrow> jsval \<Rightarrow> state \<Rightarrow> state" where
  "saveToStorage key v s = setItem (prefix_key @ key) (serialized v) s"

definition removeFromStorage :: "string \<Rightarrow> state \<Rightarrow> state" where
  "removeFromStorage key s = removeItem (prefix_key @ key) s"

subsection \<open>Events\<close>

text \<open>\<^verbatim>\<open>on(event, callback)\<close> adds to the event's \<^verbatim>\<open>Set\<close>: a callback already in it keeps
  its place. \<^verbatim>\<open>off\<close>, and the function \<^verbatim>\<open>on\<close> returns, delete it.\<close>

definition on :: "string \<Rightarrow> nat \<Rightarrow> state \<Rightarrow> state" where
  "on event callback s =
     s\<lparr>listeners := (listeners s)(event :=
          (if callback \<in> set (listeners s event) then listeners s event
           else listeners s event @ [callback]))\<rparr>"

definition off :: "string \<Rightarrow> nat \<Rightarrow> state \<Rightarrow> state" where
  "off event callback s =
     s\<lparr>listeners := (listeners s)(event := removeAll callback (listeners s event))\<rparr>"

text \<open>The body of \<^verbatim>\<open>listeners.forEach\<close> in \<^verbatim>\<open>_triggerEvent\<close>: the call, and the
  \<^verbatim>\<open>catch\<close> that logs.\<close>

definition callListener :: "env \<Rightarrow> string \<Rightarrow> jsval \<Rightarrow> state \<Rightarrow> nat \<Rightarrow> state" where
  "callListener e eventName data s callback =
     (let s1 = emit (Invoke callback data) s
      in if listenerThrows e callback data
         then log ''error'' (''Error in event listener for '' @ eventName @ '':'') s1
         else s1)"

definition triggerEvent :: "env \<Rightarrow> string \<Rightarrow> jsval \<Rightarrow> state \<Rightarrow> state" where
  "triggerEvent e eventName data s =
     (let s1 = (if logEvents s then log ''info'' (''Event triggered: '' @ eventName) s else s);
          s2 = foldl (callListener e eventName data) s1 (listeners s1 eventName)
      in if enableCustomEvents s2 then emit (WindowEvent (''emiralai:'' @ eventName) data) s2
         else s2)"

text \<open>\<^verbatim>\<open>_notifyOtherTabs\<close>: a \<^verbatim>\<open>BroadcastChannel\<close> message, or a sentinel key written and
  removed at once.\<close>

definition notifyOtherTabs :: "env \<Rightarrow> string \<Rightarrow> jsval \<Rightarrow> state \<Rightarrow> state" where
  "notifyOtherTabs e event data s =
     (if broadcastChannel e then emit (PostMessage event data) s
      else (let key = prefix_key @ ''sync_'' @ showInt (now e)
            in removeItem key
                 (setItem key (serialized (JObj [(''event'', JStr event), (''data'', data)])) s)))"

definition showNotification :: "env \<Rightarrow> string \<Rightarrow> string \<Rightarrow> state \<Rightarrow> state" where
  "showNotification e message type s =
     (if \<not> enableNotifications s then s
      else (let detail = JObj [(''message'', JStr message), (''type'', JStr type)]
            in emit (WindowEvent ''emiralai:notification'' detail)
                 (triggerEvent e ''notification'' detail s)))"

section \<open>Validation\<close>

text \<open>\<^verbatim>\<open>/^[^\s@]+@[^\s@]+\.[^\s@]+$/\<close>: a non-empty local part, an \<^verbatim>\<open>@\<close>, and a rest
  with a dot that is neither its first nor its last character; no white space and no
  second \<^verbatim>\<open>@\<close> anywhere.\<close>

definition emailChar :: "char \<Rightarrow> bool" where
  "emailChar c = (\<not> isSpace c \<and> c \<noteq> CHR ''@'')"

definition matchesEmail :: "string \<Rightarrow> bool" where
  "matchesEmail s =
     (let a = takeWhile (\<lambda>c. c \<noteq> CHR ''@'') s;
          r = dropWhile (\<lambda>c. c \<noteq> CHR ''@'') s
      in a \<noteq> [] \<and> list_all emailChar a \<and> r \<noteq> [] \<and> list_all emailChar (tl r)
         \<and> CHR ''.'' \<in> set (butlast (tl (tl r))))"

text \<open>\<^verbatim>\<open>_isValidEmail\<close>: \<^verbatim>\<open>test\<close> converts its argument to a string.\<close>

definition isValidEmail :: "jsval \<Rightarrow> bool" where
  "isValidEmail email = matchesEmail (toStr email)"

definition validateUserData :: "jsval \<Rightarrow> bool" where
  "validateUserData data =
     (if \<not> truthy data \<or> \<not> isObjectType data then False
      else if truthy (getProp data ''email'') \<and> \<not> isValidEmail (getProp data ''email'') then False
      else if truthy (getProp data ''planId'') \<and> plansLookup (getProp data ''planId'') = Missing
        then False
      else True)"

text \<open>\<^verbatim>\<open>_isSessionValid\<close>: a comparison with the invalid date is false.\<close>

definition isSessionValid :: "env \<Rightarrow> jsval \<Rightarrow> bool" where
  "isSessionValid e userData =
     (if \<not> truthy (getProp userData ''sessionExpiry'') then True
      else (case toDate e (getProp userData ''sessionExpiry'') of
              None \<Rightarrow> False
            | Some expiry \<Rightarrow> now e < expiry))"

section \<open>The avatar generator\<close>

text \<open>
  \<^verbatim>\<open>_getDefaultAvatar\<close> of the manager and \<^verbatim>\<open>generateUserAvatar\<close> of
  \<^verbatim>\<open>src/js/dashboard.js\<close> share their text up to the palette (fifteen colours against
  ten) and the SVG template. The shared steps are the helpers below.
\<close>

text \<open>\<^verbatim>\<open>s[0]\<close>\<close>

definition idx0 :: "string \<Rightarrow> jsval" where
  "idx0 s = (case s of [] \<Rightarrow> JUndef | c # cs \<Rightarrow> JStr [c])"

text \<open>\<^verbatim>\<open>a + b\<close> for two values that are strings or \<^verbatim>\<open>undefined\<close>: concatenation, unless
  both are \<^verbatim>\<open>undefined\<close>.\<close>

definition plus_js :: "jsval \<Rightarrow> jsval \<Rightarrow> jsval" where
  "plus_js a b = (if a = JUndef \<and> b = JUndef then JNaN else JStr (toStr a @ toStr b))"

text \<open>The initials, before \<^verbatim>\<open>toUpperCase\<close>. \<^verbatim>\<open>name.trim()\<close> and \<^verbatim>\<open>email.split('@')\<close>
  throw on a value that is no string. After \<^verbatim>\<open>trim\<close> two or more pieces are all
  non-empty; a single piece is empty when the name is white space only, and then
  \<^verbatim>\<open>parts[0][0]\<close> is \<^verbatim>\<open>undefined\<close>.\<close>

definition avatarInitials :: "jsval \<Rightarrow> jsval \<Rightarrow> error + jsval" where
  "avatarInitials name email =
     (if truthy name \<and> name \<noteq> JStr ''Guest User'' then
        (case name of
           JStr n \<Rightarrow>
             (let parts = splitWs [] (trim n)
              in if 2 \<le> length parts
                 then Inr (plus_js (idx0 (hd parts)) (idx0 (last parts)))
                 else if 2 \<le> length (hd parts) then Inr (JStr (take 2 (hd parts)))
                 else Inr (idx0 (hd parts)))
         | _ \<Rightarrow> Inl TypeError)
      else if truthy email \<and> email \<noteq> JStr ''user@example.com'' then
        (case email of
           JStr em \<Rightarrow> Inr (JStr (take 2 (takeWhile (\<lambda>c. c \<noteq> CHR ''@'') em)))
         | _ \<Rightarrow> Inl TypeError)
      else Inr (JStr ''U''))"

text \<open>\<^verbatim>\<open>v.toUpperCase()\<close>, \<^verbatim>\<open>v.toLowerCase()\<close>: methods of strings only.\<close>

definition upperOf :: "jsval \<Rightarrow> error + string" where
  "upperOf v = (case v of JStr s \<Rightarrow> Inr (toUpperCase s) | _ \<Rightarrow> Inl TypeError)"

definition lowerOf :: "jsval \<Rightarrow> error + string" where
  "lowerOf v = (case v of JStr s \<Rightarrow> Inr (toLowerCase s) | _ \<Rightarrow> Inl TypeError)"

text \<open>The loop \<^verbatim>\<open>hash = ((hash << 5) - hash) + str.charCodeAt(i); hash = hash & hash\<close>:
  \<^verbatim>\<open>&\<close> brings the sum back to a signed 32-bit integer after every step.\<close>

definition avatarHash :: "string \<Rightarrow> 32 word" where
  "avatarHash str = foldl (\<lambda>hash c. (push_bit 5 hash - hash) + of_nat (of_char c)) 0 str"

text \<open>\<^verbatim>\<open>Math.abs(hash) % colors.length\<close>\<close>

definition colorIndex :: "string list \<Rightarrow> string \<Rightarrow> nat" where
  "colorIndex colors str = nat \<bar>sint (avatarHash str)\<bar> mod length colors"

text \<open>\<^verbatim>\<open>btoa(unescape(encodeURIComponent(svg)))\<close>: the UTF-8 bytes of the text in
  base 64.\<close>

definition utf8 :: "string \<Rightarrow> nat list" where
  "utf8 s = concat (map (\<lambda>c. let n = (of_char c :: nat)
                              in if n < 128 then [n] else [192 + n div 64, 128 + n mod 64]) s)"

definition b64 :: "nat \<Rightarrow> char" where
  "b64 n = ''ABCDEFGHIJKLMNOPQRSTUVWXYZabcdefghijklmnopqrstuvwxyz0123456789+/'' ! n"

fun btoa :: "nat list \<Rightarrow> string" where
  "btoa [] = []"
| "btoa [a] = [b64 (a div 4), b64 ((a mod 4) * 16), CHR ''='', CHR ''='']"
| "btoa [a, b] =
     [b64 (a div 4), b64 ((a mod 4) * 16 + b div 16), b64 ((b mod 16) * 4), CHR ''='']"
| "btoa (a # b # c # r) =
     [b64 (a div 4), b64 ((a mod 4) * 16 + b div 16), b64 ((b mod 16) * 4 + c div 64),
      b64 (c mod 64)] @ btoa r"

definition dataUrl :: "string \<Rightarrow> string" where
  "dataUrl svg = ''data:image/svg+xml;base64,'' @ btoa (utf8 svg)"

subsection \<open>\<^verbatim>\<open>EmiralUserData._getDefaultAvatar\<close>\<close>

definition colors :: "string list" where
  "colors = [''#FF6B6B'', ''#4ECDC4'', ''#45B7D1'', ''#FFA07A'', ''#98D8C8'',
             ''#F7DC6F'', ''#BB8FCE'', ''#85C1F2'', ''#F8B739'', ''#52C41A'',
             ''#1890FF'', ''#722ED1'', ''#EB2F96'', ''#13C2C2'', ''#FAAD14'']"

definition svgAvatar :: "string \<Rightarrow> string \<Rightarrow> string" where
  \<open>svgAvatar backgroundColor initials =
     ''<svg xmlns="http://www.w3.org/2000/svg" width="100" height="100" viewBox="0 0 100 100">\<newline>                <circle cx="50" cy="50" r="50" fill="''
     @ backgroundColor @
     ''"/>\<newline>                <text x="50%" y="50%" font-family="-apple-system, BlinkMacSystemFont, 'Segoe UI', Roboto, sans-serif" \<newline>                      font-size="40" font-weight="600" fill="#FFFFFF" text-anchor="middle" \<newline>                      dominant-baseline="middle" style="user-select: none;">''
     @ initials @
     ''</text>\<newline>            </svg>''\<close>

text \<open>\<open>email\<close> is never falsy after its default, so \<^verbatim>\<open>(email || name || 'default')\<close> is
  \<open>email\<close>.\<close>

definition avatarBackground :: "jsval \<Rightarrow> error + string" where
  "avatarBackground userData =
     (let email = orElse (optProp userData ''email'') (JStr ''user@example.com'')
      in case lowerOf email of
           Inl x \<Rightarrow> Inl x
         | Inr str \<Rightarrow> Inr (colors ! colorIndex colors str))"

definition getDefaultAvatar :: "jsval \<Rightarrow> error + jsval" where
  "getDefaultAvatar userData =
     (let name = orElse (optProp userData ''name'') (JStr ''Guest User'');
          email = orElse (optProp userData ''email'') (JStr ''user@example.com'')
      in case avatarInitials name email of
           Inl x \<Rightarrow> Inl x
         | Inr ini \<Rightarrow>
             (case upperOf ini of
                Inl x \<Rightarrow> Inl x
              | Inr initials \<Rightarrow>
                  (case avatarBackground userData of
                     Inl x \<Rightarrow> Inl x
                   | Inr bg \<Rightarrow> Inr (JStr (dataUrl (svgAvatar bg initials))))))"

subsection \<open>\<^verbatim>\<open>generateUserAvatar\<close> of the dashboard\<close>





section \<open>Enrichment\<close>

text \<open>The seed of \<^verbatim>\<open>_calculateUsage\<close>: the sum of the character codes of the e-mail, or
  42 without one. \<^verbatim>\<open>userData.email.split('')\<close> throws on a truthy value that is no
  string.\<close>

definition usageSeed :: "jsval \<Rightarrow> error + int" where
  "usageSeed userData =
     (let email = getProp userData ''email''
      in if truthy email
         then (case email of
                 JStr em \<Rightarrow> Inr (foldl (\<lambda>a b. a + int (of_char b)) 0 em)
               | _ \<Rightarrow> Inl TypeError)
         else Inr 42)"

text \<open>\<^verbatim>\<open>_calculateUsage\<close>. The object literal is \<open>mockUsage\<close> of the environment. On an
  inherited built-in \<^verbatim>\<open>plan.storageLimit\<close> is \<^verbatim>\<open>undefined\<close>, and
  \<^verbatim>\<open>_calculateStorageUsed\<close> throws at \<^verbatim>\<open>limit.replace\<close>; the four catalogue entries all
  have a string there.\<close>

definition calculateUsage :: "env \<Rightarrow> jsval \<Rightarrow> jsval \<Rightarrow> error + jsval" where
  "calculateUsage e planId userData =
     (case plansLookup planId of
        Missing \<Rightarrow> Inr (JObj [])
      | Inherited n \<Rightarrow> Inl TypeError
      | Own plan \<Rightarrow>
          (case usageSeed userData of
             Inl x \<Rightarrow> Inl x
           | Inr seed \<Rightarrow> Inr (JObj (mockUsage e planId seed))))"

text \<open>\<^verbatim>\<open>Math.ceil((endDate - now) / day)\<close> and \<^verbatim>\<open>Math.floor((now - loginDate) / day)\<close>;
  \<open>NaN\<close> on the invalid date, and every comparison with \<open>NaN\<close> is false.\<close>

definition msPerDay :: int where
  "msPerDay = 1000 * 60 * 60 * 24"

definition enhanceSubscription :: "env \<Rightarrow> jsval \<Rightarrow> jsval \<Rightarrow> jsval" where
  "enhanceSubscription e subscription planData =
     (if \<not> truthy subscription
      then JObj [(''status'', JStr ''inactive''), (''planId'', JStr ''free''),
                 (''planName'', JStr ''Free Plan'')]
      else (let endDate = toDate e (getProp subscription ''endDate'');
                days = map_option (\<lambda>t. - ((now e - t) div msPerDay)) endDate
            in JObj (assign [] (spread subscription @
                 [(''daysRemaining'', (case days of None \<Rightarrow> JNaN | Some d \<Rightarrow> JNum d)),
                  (''isExpiringSoon'',
                     JBool (case days of None \<Rightarrow> False | Some d \<Rightarrow> d \<le> 7 \<and> 0 < d)),
                  (''isExpired'', JBool (case days of None \<Rightarrow> False | Some d \<Rightarrow> d \<le> 0)),
                  (''formattedEndDate'', JStr (toLocaleDateString e endDate)),
                  (''features'', getProp planData ''features''),
                  (''supportLevel'', getProp planData ''supportLevel'')]))))"

definition getPermissions :: "jsval \<Rightarrow> jsval" where
  "getPermissions planId =
     (let planIndex = planIndex planId
      in JObj [
        (''canUseAPI'', JBool (1 \<le> planIndex)),
        (''canExportData'', JBool (1 \<le> planIndex)),
        (''canCustomizeModels'', JBool (1 \<le> planIndex)),
        (''canAccessAnalytics'', JBool (0 \<le> planIndex)),
        (''canUseAdvancedAnalytics'', JBool (2 \<le> planIndex)),
        (''canInviteTeamMembers'', JBool (2 \<le> planIndex)),
        (''canUseWhiteLabel'', JBool (2 \<le> planIndex)),
        (''canAccessPrioritySupport'', JBool (2 \<le> planIndex)),
        (''canRequestCustomFeatures'', JBool (3 \<le> planIndex)),
        (''hasUnlimitedAPI'', JBool (3 \<le> planIndex)),
        (''hasUnlimitedStorage'', JBool (3 \<le> planIndex)),
        (''hasUnlimitedProjects'', JBool (3 \<le> planIndex)),
        (''showUpgradePrompts'', JBool (planIndex < 3)),
        (''showUsageLimits'', JBool (planIndex < 3)),
        (''showAds'', JBool (planIndex = 0))])"

text \<open>The two counters of \<^verbatim>\<open>_getUserMetrics\<close> are read raw and passed to \<^verbatim>\<open>parseInt\<close>.
  Through the parsed view of the storage this is the stored integer, the default when the
  key is absent, and \<open>NaN\<close> for an entry that is no number.\<close>

definition storedCounter :: "state \<Rightarrow> string \<Rightarrow> int \<Rightarrow> jsval" where
  "storedCounter s name dflt =
     (case storage s (prefix_key @ name) of
        None \<Rightarrow> JNum dflt
      | Some (Parsed (JNum n)) \<Rightarrow> JNum n
      | Some other \<Rightarrow> JNaN)"

definition getUserMetrics :: "env \<Rightarrow> state \<Rightarrow> jsval \<Rightarrow> jsval" where
  "getUserMetrics e s userData =
     JObj [
       (''accountAge'',
          (case toDate e (getProp userData ''loginTime'') of
             None \<Rightarrow> JNaN
           | Some t \<Rightarrow> JNum ((now e - t) div msPerDay))),
       (''lastActive'', JStr (toISOString e (now e))),
       (''loginCount'', storedCounter s ''login_count'' 1),
       (''totalApiCalls'', storedCounter s ''total_api_calls'' 0),
       (''favoriteFeatures'',
          JArr [JStr ''AI Chat'', JStr ''Model Training'', JStr ''Analytics Dashboard''])]"

text \<open>\<^verbatim>\<open>_generateUserId\<close>\<close>

definition generateUserId :: "env \<Rightarrow> string" where
  "generateUserId e = ''user_'' @ showInt (now e) @ ''_'' @ randomId e"

text \<open>The immediately invoked function that yields \<^verbatim>\<open>profileImage\<close>.\<close>

definition profileImage :: "jsval \<Rightarrow> error + jsval" where
  "profileImage userData =
     (let img = getProp userData ''profileImage''
      in if \<not> truthy img then getDefaultAvatar userData
         else (case includes_js img ''default'' of
                 Inl x \<Rightarrow> Inl x
               | Inr True \<Rightarrow> getDefaultAvatar userData
               | Inr False \<Rightarrow>
                   (case includes_js img ''emiral'' of
                      Inl x \<Rightarrow> Inl x
                    | Inr True \<Rightarrow> getDefaultAvatar userData
                    | Inr False \<Rightarrow>
                        (case includes_js img ''pexels'' of
                           Inl x \<Rightarrow> Inl x
                         | Inr True \<Rightarrow> getDefaultAvatar userData
                         | Inr False \<Rightarrow> Inr img))))"

text \<open>The object literal \<^verbatim>\<open>completeUserData\<close> of \<^verbatim>\<open>getUserData\<close>, its properties
  evaluated in the order written. \<^verbatim>\<open>planData\<close> is the catalogue entry of \<open>planId\<close>, or
  the free plan when the catalogue has nothing under that key; under an inherited key it
  is a built-in, and \<^verbatim>\<open>_calculateUsage\<close> throws.\<close>

definition completeUserData ::
  "env \<Rightarrow> state \<Rightarrow> jsval \<Rightarrow> jsval \<Rightarrow> jsval \<Rightarrow> error + jsval" where
  "completeUserData e s userData subscription settings =
     (let planId = orElse (getProp userData ''planId'')
                     (orElse (optProp subscription ''planId'') (JStr ''free''));
          planRef = (case plansLookup planId of Missing \<Rightarrow> Own plan_free | r \<Rightarrow> r)
      in case profileImage userData of
           Inl x \<Rightarrow> Inl x
         | Inr img \<Rightarrow>
             (case calculateUsage e planId userData of
                Inl x \<Rightarrow> Inl x
              | Inr usage \<Rightarrow>
                  (case planRef of
                     Own planData \<Rightarrow>
                       Inr (JObj [
                         (''id'', orElse (getProp userData ''id'') (JStr (generateUserId e))),
                         (''name'', orElse (getProp userData ''name'') (JStr ''Guest User'')),
                         (''email'',
                            orElse (getProp userData ''email'') (JStr ''guest@emiralai.com'')),
                         (''profileImage'', img),
                         (''plan'', getProp planData ''name''),
                         (''planId'', planId),
                         (''planData'', planData),
                         (''usage'', usage),
                         (''subscription'', enhanceSubscription e subscription planData),
                         (''settings'', settings),
                         (''session'', JObj [
                            (''loginTime'', getProp userData ''loginTime''),
                            (''lastActivity'', JStr (toISOString e (now e))),
                            (''expiresAt'', getProp userData ''sessionExpiry''),
                            (''isActive'', JBool True)]),
                         (''permissions'', getPermissions planId),
                         (''metrics'', getUserMetrics e s userData)])
                   | _ \<Rightarrow> Inl TypeError)))"

section \<open>Public operations\<close>

subsection \<open>\<^verbatim>\<open>clearUserData\<close>\<close>

definition clearUserData :: "env \<Rightarrow> bool \<Rightarrow> state \<Rightarrow> state" where
  "clearUserData e clearSettings s =
     (let s1 = removeFromStorage subscriptionKey (removeFromStorage userDataKey s);
          s2 = (if clearSettings then removeFromStorage settingsKey s1 else s1);
          s3 = s2\<lparr>currentUser := JNull\<rparr>;
          s4 = (if syncInterval s3 then emit ClearInterval (s3\<lparr>syncInterval := False\<rparr>) else s3);
          s5 = triggerEvent e ''userLoggedOut'' JNull s4;
          s6 = notifyOtherTabs e ''userLoggedOut'' JNull s5
      in log ''info'' ''User data cleared'' s6)"

subsection \<open>\<^verbatim>\<open>getUserData\<close>\<close>

text \<open>The \<^verbatim>\<open>try\<close> body throws only while the enriched object is built, before anything
  is written; the \<^verbatim>\<open>catch\<close> logs and returns \<^verbatim>\<open>null\<close>.\<close>

definition getUserData :: "env \<Rightarrow> bool \<Rightarrow> state \<Rightarrow> jsval \<times> state" where
  "getUserData e forceRefresh s =
     (if \<not> forceRefresh \<and> truthy (currentUser s) then (currentUser s, s)
      else (let (userData, s1) = getFromStorage userDataKey s
            in if \<not> truthy userData then (JNull, s1)
               else if \<not> isSessionValid e userData then (JNull, clearUserData e False s1)
               else (let (subscription, s2) = getFromStorage subscriptionKey s1;
                         (stored_settings, s3) = getFromStorage settingsKey s2;
                         settings = orElse stored_settings (JObj [])
                     in case completeUserData e s3 userData subscription settings of
                          Inl x \<Rightarrow> (JNull, log ''error'' ''Error getting user data:'' s3)
                        | Inr complete \<Rightarrow>
                            (complete,
                             triggerEvent e ''dataLoaded'' complete
                               (s3\<lparr>currentUser := complete\<rparr>)))))"

definition isLoggedIn :: "env \<Rightarrow> state \<Rightarrow> bool \<times> state" where
  "isLoggedIn e s = (let (userData, s1) = getUserData e False s in (userData \<noteq> JNull, s1))"

subsection \<open>\<^verbatim>\<open>saveUserData\<close>\<close>

definition addToOfflineQueue :: "env \<Rightarrow> string \<Rightarrow> jsval \<Rightarrow> state \<Rightarrow> state" where
  "addToOfflineQueue e action data s =
     (let queue = offlineQueue s @
            [JObj [(''action'', JStr action), (''data'', data),
                   (''timestamp'', JStr (toISOString e (now e)))]]
      in setItem (prefix_key @ ''offline_queue'') (serialized (JArr queue))
           (s\<lparr>offlineQueue := queue\<rparr>))"

text \<open>The names taken out of \<^verbatim>\<open>updatedData\<close> by the destructuring; the rest is the
  user record.\<close>

definition separated :: "string list" where
  "separated = [''subscription'', ''settings'', ''usage'', ''metrics'', ''permissions'']"

text \<open>\<^verbatim>\<open>{ ...currentData, ...data, lastModified: new Date().toISOString() }\<close>\<close>

definition updatedData :: "env \<Rightarrow> jsval \<Rightarrow> jsval \<Rightarrow> (string \<times> jsval) list" where
  "updatedData e currentData data =
     assign [] (spread currentData @ spread data @
                [(''lastModified'', JStr (toISOString e (now e)))])"

text \<open>Validation is the only \<^verbatim>\<open>throw\<close> of the \<^verbatim>\<open>try\<close> body; the \<^verbatim>\<open>catch\<close> logs,
  queues the rejected patch when the offline mode is on, and returns \<^verbatim>\<open>false\<close>.\<close>

definition saveUserData :: "env \<Rightarrow> jsval \<Rightarrow> state \<Rightarrow> bool \<times> state" where
  "saveUserData e data s =
     (if \<not> validateUserData data
      then (let s1 = log ''error'' ''Error saving user data:'' s
            in (False, if enableOfflineMode s1 then addToOfflineQueue e ''save'' data s1 else s1))
      else (let (current, s1) = getUserData e False s;
                currentData = orElse current (JObj []);
                updated = updatedData e currentData data;
                subscription = getProp (JObj updated) ''subscription'';
                settings = getProp (JObj updated) ''settings'';
                userData = JObj (restWithout separated updated);
                s2 = saveToStorage userDataKey userData s1;
                s3 = (if truthy subscription
                      then saveToStorage subscriptionKey subscription s2 else s2);
                s4 = (if truthy settings then saveToStorage settingsKey settings s3 else s3);
                s5 = s4\<lparr>currentUser := JObj updated\<rparr>;
                s6 = triggerEvent e ''dataUpdated'' (JObj updated) s5;
                s7 = notifyOtherTabs e ''userDataUpdated'' (JObj updated) s6;
                s8 = (if enableAutoSave s7 then log ''info'' ''Data queued for server sync'' s7
                      else s7)
            in (True, log ''info'' ''User data saved successfully'' s8)))"

text \<open>The merged record of an accepted \<^verbatim>\<open>saveUserData\<close>.\<close>

definition merged :: "env \<Rightarrow> jsval \<Rightarrow> state \<Rightarrow> (string \<times> jsval) list" where
  "merged e data s = updatedData e (orElse (fst (getUserData e False s)) (JObj [])) data"

subsection \<open>\<^verbatim>\<open>updateUserPlan\<close>\<close>

text \<open>\<^verbatim>\<open>_calculateEndDate\<close>\<close>

definition calculateEndDate :: "env \<Rightarrow> string \<Rightarrow> string" where
  "calculateEndDate e planId =
     (if planId = ''free'' then toISOString e (plusYears100 e (now e))
      else toISOString e (plusDays30 e (now e)))"

text \<open>The subscription literal: the nine computed properties, then
  \<^verbatim>\<open>...subscriptionData\<close>, which overwrites any of them.\<close>

definition newSubscription :: "env \<Rightarrow> string \<Rightarrow> planref \<Rightarrow> jsval \<Rightarrow> jsval" where
  "newSubscription e planId planData subscriptionData =
     JObj (assign []
       ([(''planId'', JStr planId),
         (''planName'', planProp planData ''name''),
         (''startDate'',
            orElse (optProp subscriptionData ''startDate'') (JStr (toISOString e (now e)))),
         (''endDate'',
            orElse (optProp subscriptionData ''endDate'') (JStr (calculateEndDate e planId))),
         (''status'', JStr ''active''),
         (''autoRenew'', JBool (optProp subscriptionData ''autoRenew'' \<noteq> JBool False)),
         (''paymentMethod'',
            orElse (optProp subscriptionData ''paymentMethod'') (JStr ''unknown'')),
         (''amount'', planProp planData ''price''),
         (''currency'', orElse (optProp subscriptionData ''currency'') (JStr ''USD''))]
        @ spread subscriptionData))"

definition updateUserPlan :: "env \<Rightarrow> string \<Rightarrow> jsval \<Rightarrow> state \<Rightarrow> bool \<times> state" where
  "updateUserPlan e planId subscriptionData s =
     (case plansLookup (JStr planId) of
        Missing \<Rightarrow> (False, log ''error'' ''Error updating plan:'' s)
      | planData \<Rightarrow>
          (let (user, s1) = getUserData e False s
           in if \<not> truthy user then (False, log ''error'' ''Error updating plan:'' s1)
              else (let subscription = newSubscription e planId planData subscriptionData;
                        s2 = saveToStorage subscriptionKey subscription s1;
                        (saved, s3) = saveUserData e
                           (JObj [(''planId'', JStr planId),
                                  (''plan'', planProp planData ''name'')]) s2;
                        s4 = triggerEvent e ''planChanged''
                           (JObj [(''oldPlan'', getProp user ''planId''),
                                  (''newPlan'', JStr planId),
                                  (''subscription'', subscription)]) s3;
                        s5 = (if enableNotifications s4
                              then showNotification e ''Plan updated successfully!'' ''success'' s4
                              else s4)
                    in (True, s5))))"

subsection \<open>\<^verbatim>\<open>hasAccess\<close> and \<^verbatim>\<open>hasPlan\<close>\<close>

text \<open>Neither has a \<^verbatim>\<open>try\<close>: what \<^verbatim>\<open>permissions[feature]\<close> throws reaches the caller.
  An inherited member is never \<^verbatim>\<open>true\<close>, so only an own property can make the
  comparison hold.\<close>

definition hasAccess :: "env \<Rightarrow> string \<Rightarrow> state \<Rightarrow> (error + bool) \<times> state" where
  "hasAccess e feature s =
     (let (userData, s1) = getUserData e False s
      in if \<not> truthy userData then (Inr False, s1)
         else (let permissions = getProp userData ''permissions''
               in if permissions = JUndef \<or> permissions = JNull then (Inl TypeError, s1)
                  else (Inr (own permissions feature = Some (JBool True)), s1)))"

definition hasPlan :: "env \<Rightarrow> string \<Rightarrow> state \<Rightarrow> bool \<times> state" where
  "hasPlan e requiredPlan s =
     (let (userData, s1) = getUserData e False s
      in if \<not> truthy userData then (False, s1)
         else (let userPlanIndex = planIndex (getProp userData ''planId'');
                   requiredPlanIndex = indexOf planHierarchy requiredPlan
               in (requiredPlanIndex \<le> userPlanIndex, s1)))"

section \<open>A concrete browser\<close>

text \<open>
  For evaluating the operations on concrete inputs: a browser in the UTC time zone whose
  \<^verbatim>\<open>Date\<close> knows the five instants below, with a \<^verbatim>\<open>BroadcastChannel\<close>, in which
  listener 13 throws on every payload and no other listener throws.
\<close>

definition instants :: "(string \<times> int) list" where
  "instants = [
     (''2024-01-01T00:00:00.000Z'', 1704067200000),
     (''2024-01-31T00:00:00.000Z'', 1706659200000),
     (''2024-02-01T00:00:00.000Z'', 1706745600000),
     (''2024-03-01T00:00:00.000Z'', 1709251200000),
     (''2124-01-01T00:00:00.000Z'', 4859740800000)]"

definition browserAt :: "int \<Rightarrow> env" where
  "browserAt t = \<lparr>
     now = t,
     randomId = ''k3x9q2m1z'',
     parseDate = map_of instants,
     toISOString = (\<lambda>t. case List.find (\<lambda>p. snd p = t) instants of
                           Some p \<Rightarrow> fst p | None \<Rightarrow> showInt t),
     toLocaleDateString = (\<lambda>d. case d of None \<Rightarrow> ''Invalid Date'' | Some t \<Rightarrow> showInt t),
     plusYears100 = (\<lambda>t. t + 36524 * msPerDay),
     plusDays30 = (\<lambda>t. t + 30 * msPerDay),
     mockUsage = (\<lambda>planId seed. [(''apiCalls'', JNum seed), (''apiLimit'', JNum 1000)]),
     listenerThrows = (\<lambda>callback data. callback = 13),
     broadcastChannel = True \<rparr>"

definition jan01 :: int where "jan01 = 1704067200000"
definition feb01 :: int where "feb01 = 1706745600000"
definition mar01 :: int where "mar01 = 1709251200000"

text \<open>The manager as the script leaves it: the default feature flags, nothing stored,
  nobody loaded, no listener.\<close>

definition freshState :: state where
  "freshState = \<lparr>
     storage = (\<lambda>k. None),
     currentUser = JNull,
     listeners = (\<lambda>ev. []),
     syncInterval = True,
     offlineQueue = [],
     enableNotifications = True,
     enableAutoSave = True,
     enableOfflineMode = True,
     debugMode = False,
     enableCustomEvents = True,
     logEvents = False,
     effects = [] \<rparr>"

text \<open>A stored user record whose session ends on 31 January 2024.\<close>

definition adaRecord :: jsval where
  "adaRecord = JObj [
     (''id'', JStr ''user_1''),
     (''name'', JStr ''Ada Lovelace''),
     (''email'', JStr ''ada@example.com''),
     (''profileImage'', JStr ''https://cdn.example.com/ada.png''),
     (''planId'', JStr ''basic''),
     (''loginTime'', JStr ''2024-01-01T00:00:00.000Z''),
     (''sessionExpiry'', JStr ''2024-01-31T00:00:00.000Z'')]"

definition adaStored :: state where
  "adaStored = freshState\<lparr>storage := (\<lambda>k. None)(prefix_key @ userDataKey := Some (Parsed adaRecord))\<rparr>"

text \<open>The manager after a first \<^verbatim>\<open>getUserData()\<close> on 1 January 2024.\<close>

definition adaLoaded :: state where
  "adaLoaded = snd (getUserData (browserAt jan01) False adaStored)"

definition adaPatch :: jsval where
  "adaPatch = JObj [
     (''name'', JStr ''Ada Lovelace''),
     (''email'', JStr ''ada@example.com''),
     (''planId'', JStr ''pro'')]"

text \<open>Property \<open>k\<close> of the object stored under a key of the manager; \<^verbatim>\<open>undefined\<close> when
  nothing that parses is stored there.\<close>

definition storedProp :: "state \<Rightarrow> string \<Rightarrow> string \<Rightarrow> jsval" where
  "storedProp s key k =
     (case storage s (prefix_key @ key) of
        Some (Parsed v) \<Rightarrow> getProp v k
      | _ \<Rightarrow> JUndef)"

text \<open>The manager after a first \<^verbatim>\<open>saveUserData\<close> of that patch.\<close>

definition adaSaved :: state where
  "adaSaved = snd (saveUserData (browserAt jan01) adaPatch freshState)"

section \<open>What the helpers leave alone\<close>

lemma emit_frame [simp]:
  "storage (emit x s) = storage s"
  "currentUser (emit x s) = currentUser s"
  "listeners (emit x s) = listeners s"
  "syncInterval (emit x s) = syncInterval s"
  "offlineQueue (emit x s) = offlineQueue s"
  "enableNotifications (emit x s) = enableNotifications s"
  "enableAutoSave (emit x s) = enableAutoSave s"
  "enableOfflineMode (emit x s) = enableOfflineMode s"
  "debugMode (emit x s) = debugMode s"
  "enableCustomEvents (emit x s) = enableCustomEvents s"
  "logEvents (emit x s) = logEvents s"
  "effects (emit x s) = effects s @ [x]"
  by (simp_all add: emit_def)

lemma log_frame [simp]:
  "storage (log l m s) = storage s"
  "currentUser (log l m s) = currentUser s"
  "listeners (log l m s) = listeners s"
  "syncInterval (log l m s) = syncInterval s"
  "offlineQueue (log l m s) = offlineQueue s"
  "enableNotifications (log l m s) = enableNotifications s"
  "enableAutoSave (log l m s) = enableAutoSave s"
  "enableOfflineMode (log l m s) = enableOfflineMode s"
  "debugMode (log l m s) = debugMode s"
  "enableCustomEvents (log l m s) = enableCustomEvents s"
  "logEvents (log l m s) = logEvents s"
  by (simp_all add: log_def)

lemma log_effects:
  "effects (log l m s) = effects s @ (if debugMode s \<or> l = ''error'' then [Console l m] else [])"
  by (simp add: log_def)

lemma callListener_frame [simp]:
  "storage (callListener e ev d s cb) = storage s"
  "currentUser (callListener e ev d s cb) = currentUser s"
  "listeners (callListener e ev d s cb) = listeners s"
  "syncInterval (callListener e ev d s cb) = syncInterval s"
  "offlineQueue (callListener e ev d s cb) = offlineQueue s"
  "enableNotifications (callListener e ev d s cb) = enableNotifications s"
  "enableAutoSave (callListener e ev d s cb) = enableAutoSave s"
  "enableOfflineMode (callListener e ev d s cb) = enableOfflineMode s"
  "debugMode (callListener e ev d s cb) = debugMode s"
  "enableCustomEvents (callListener e ev d s cb) = enableCustomEvents s"
  "logEvents (callListener e ev d s cb) = logEvents s"
  by (simp_all add: callListener_def Let_def)

lemma callListener_effects:
  "effects (callListener e ev d s cb) =
     effects s @ Invoke cb d #
       (if listenerThrows e cb d
        then [Console ''error'' (''Error in event listener for '' @ ev @ '':'')] else [])"
  by (simp add: callListener_def Let_def log_effects)

lemma foldl_callListener_frame [simp]:
  "storage (foldl (callListener e ev d) s cbs) = storage s"
  "currentUser (foldl (callListener e ev d) s cbs) = currentUser s"
  "listeners (foldl (callListener e ev d) s cbs) = listeners s"
  "syncInterval (foldl (callListener e ev d) s cbs) = syncInterval s"
  "offlineQueue (foldl (callListener e ev d) s cbs) = offlineQueue s"
  "enableNotifications (foldl (callListener e ev d) s cbs) = enableNotifications s"
  "enableAutoSave (foldl (callListener e ev d) s cbs) = enableAutoSave s"
  "enableOfflineMode (foldl (callListener e ev d) s cbs) = enableOfflineMode s"
  "debugMode (foldl (callListener e ev d) s cbs) = debugMode s"
  "enableCustomEvents (foldl (callListener e ev d) s cbs) = enableCustomEvents s"
  "logEvents (foldl (callListener e ev d) s cbs) = logEvents s"
  by (induction cbs arbitrary: s; simp)+

lemma foldl_callListener_effects:
  "effects (foldl (callListener e ev d) s cbs) =
     effects s @ concat (map (\<lambda>cb. Invoke cb d #
       (if listenerThrows e cb d
        then [Console ''error'' (''Error in event listener for '' @ ev @ '':'')] else [])) cbs)"
  by (induction cbs arbitrary: s) (simp_all add: callListener_effects)

lemma triggerEvent_frame [simp]:
  "storage (triggerEvent e ev d s) = storage s"
  "currentUser (triggerEvent e ev d s) = currentUser s"
  "listeners (triggerEvent e ev d s) = listeners s"
  "syncInterval (triggerEvent e ev d s) = syncInterval s"
  "offlineQueue (triggerEvent e ev d s) = offlineQueue s"
  "enableNotifications (triggerEvent e ev d s) = enableNotifications s"
  "enableAutoSave (triggerEvent e ev d s) = enableAutoSave s"
  "enableOfflineMode (triggerEvent e ev d s) = enableOfflineMode s"
  "debugMode (triggerEvent e ev d s) = debugMode s"
  "enableCustomEvents (triggerEvent e ev d s) = enableCustomEvents s"
  "logEvents (triggerEvent e ev d s) = logEvents s"
  by (simp_all add: triggerEvent_def Let_def)

lemma triggerEvent_effects:
  "effects (triggerEvent e ev d s) =
     effects s
     @ (if logEvents s \<and> debugMode s then [Console ''info'' (''Event triggered: '' @ ev)] else [])
     @ concat (map (\<lambda>cb. Invoke cb d #
         (if listenerThrows e cb d
          then [Console ''error'' (''Error in event listener for '' @ ev @ '':'')] else []))
         (listeners s ev))
     @ (if enableCustomEvents s then [WindowEvent (''emiralai:'' @ ev) d] else [])"
  by (simp add: triggerEvent_def Let_def foldl_callListener_effects log_effects)

lemma listeners_on_other [simp]: "ev' \<noteq> ev \<Longrightarrow> listeners (on ev cb s) ev' = listeners s ev'"
  by (simp add: on_def)

lemma listeners_foldl_on:
  "listeners (foldl (\<lambda>st cb. on ev cb st) s cbs) ev =
     foldl (\<lambda>l cb. if cb \<in> set l then l else l @ [cb]) (listeners s ev) cbs"
  by (induction cbs arbitrary: s) (simp_all add: on_def)

lemma first_occurrences:
  "foldl (\<lambda>l cb. if cb \<in> set l then l else l @ [cb]) [] cbs = rev (remdups (rev cbs))"
  by (induction cbs rule: rev_induct) simp_all

section \<open>The broadcaster\<close>

text \<open>
  Claim C8. For every event name and every sequence of registered callbacks, \<^verbatim>\<open>emit\<close>
  (\<^verbatim>\<open>_triggerEvent\<close>) invokes the same-tab listeners synchronously in their registration
  order, and an exception thrown by one listener is caught and logged, so that every
  later-registered listener of the event is still invoked.

  First conjunct: registering the callbacks \<open>cbs\<close> one after the other with \<^verbatim>\<open>on\<close> leaves
  them in the order of their first registration (the listeners of an event are a
  \<^verbatim>\<open>Set\<close>). Second conjunct: in any state, what \<^verbatim>\<open>_triggerEvent\<close> adds to the trace is
  the optional debug line, then one invocation for each listener in that order, each
  followed by the logged error exactly when that listener throws, then the optional
  window event: no listener is skipped whatever the earlier ones do.
\<close>

theorem emit_in_registration_order:
  "(listeners s0 ev = [] \<longrightarrow>
      listeners (foldl (\<lambda>st cb. on ev cb st) s0 cbs) ev = rev (remdups (rev cbs)))
   \<and> effects (triggerEvent e ev d s) =
       effects s
       @ (if logEvents s \<and> debugMode s
          then [Console ''info'' (''Event triggered: '' @ ev)] else [])
       @ concat (map (\<lambda>cb. Invoke cb d #
           (if listenerThrows e cb d
            then [Console ''error'' (''Error in event listener for '' @ ev @ '':'')]
            else []))
           (listeners s ev))
       @ (if enableCustomEvents s then [WindowEvent (''emiralai:'' @ ev) d] else [])"
  by (simp add: listeners_foldl_on first_occurrences triggerEvent_effects)

theorem emit_in_registration_order_witness:
  "listeners freshState ''dataUpdated'' = []
   \<and> effects (triggerEvent (browserAt jan01) ''dataUpdated'' JNull
        (foldl (\<lambda>st cb. on ''dataUpdated'' cb st) freshState [7, 13, 7, 21])) =
       [Invoke 7 JNull, Invoke 13 JNull,
        Console ''error'' ''Error in event listener for dataUpdated:'',
        Invoke 21 JNull, WindowEvent ''emiralai:dataUpdated'' JNull]"
proof -
  have empty: "listeners freshState ''dataUpdated'' = []"
    by (simp add: freshState_def)
  have flags: "\<not> logEvents freshState" "enableCustomEvents freshState" "effects freshState = []"
    by (simp_all add: freshState_def)
  note inst = emit_in_registration_order [of freshState "''dataUpdated''" "[7, 13, 7, 21]"
      "browserAt jan01" JNull "foldl (\<lambda>st cb. on ''dataUpdated'' cb st) freshState [7, 13, 7, 21]"]
  from inst empty have ls: "listeners (foldl (\<lambda>st cb. on ''dataUpdated'' cb st) freshState [7, 13, 7, 21])
      ''dataUpdated'' = [7, 13, 21]"
    by simp
  have keep: "logEvents (foldl (\<lambda>st cb. on ''dataUpdated'' cb st) freshState [7, 13, 7, 21]) = False"
    "enableCustomEvents (foldl (\<lambda>st cb. on ''dataUpdated'' cb st) freshState [7, 13, 7, 21]) = True"
    "effects (foldl (\<lambda>st cb. on ''dataUpdated'' cb st) freshState [7, 13, 7, 21]) = []"
    by (simp_all add: on_def freshState_def)
  from inst ls keep empty show ?thesis
    by (simp add: browserAt_def)
qed


section \<open>Storage and the remaining helpers\<close>

lemma setItem_frame [simp]:
  "storage (setItem k x s) = (storage s)(k := Some x)"
  "currentUser (setItem k x s) = currentUser s"
  "listeners (setItem k x s) = listeners s"
  "syncInterval (setItem k x s) = syncInterval s"
  "offlineQueue (setItem k x s) = offlineQueue s"
  "enableNotifications (setItem k x s) = enableNotifications s"
  "enableAutoSave (setItem k x s) = enableAutoSave s"
  "enableOfflineMode (setItem k x s) = enableOfflineMode s"
  "debugMode (setItem k x s) = debugMode s"
  "enableCustomEvents (setItem k x s) = enableCustomEvents s"
  "logEvents (setItem k x s) = logEvents s"
  "effects (setItem k x s) = effects s @ [SetItem k x]"
  by (simp_all add: setItem_def)

lemma removeItem_frame [simp]:
  "storage (removeItem k s) = (storage s)(k := None)"
  "currentUser (removeItem k s) = currentUser s"
  "listeners (removeItem k s) = listeners s"
  "syncInterval (removeItem k s) = syncInterval s"
  "offlineQueue (removeItem k s) = offlineQueue s"
  "enableNotifications (removeItem k s) = enableNotifications s"
  "enableAutoSave (removeItem k s) = enableAutoSave s"
  "enableOfflineMode (removeItem k s) = enableOfflineMode s"
  "debugMode (removeItem k s) = debugMode s"
  "enableCustomEvents (removeItem k s) = enableCustomEvents s"
  "logEvents (removeItem k s) = logEvents s"
  "effects (removeItem k s) = effects s @ [RemoveItem k]"
  by (simp_all add: removeItem_def)

text \<open>The three keys of the manager differ from each other, from the offline queue's key
  and from every sentinel key.\<close>

lemma keys_differ [simp]:
  "prefix_key @ userDataKey \<noteq> prefix_key @ subscriptionKey"
  "prefix_key @ userDataKey \<noteq> prefix_key @ settingsKey"
  "prefix_key @ subscriptionKey \<noteq> prefix_key @ settingsKey"
  "prefix_key @ subscriptionKey \<noteq> prefix_key @ userDataKey"
  "prefix_key @ settingsKey \<noteq> prefix_key @ userDataKey"
  "prefix_key @ settingsKey \<noteq> prefix_key @ subscriptionKey"
  by (simp_all add: userDataKey_def subscriptionKey_def settingsKey_def)

lemma bare_keys_differ [simp]:
  "userDataKey \<noteq> subscriptionKey" "userDataKey \<noteq> settingsKey"
  "subscriptionKey \<noteq> settingsKey" "subscriptionKey \<noteq> userDataKey"
  "settingsKey \<noteq> userDataKey" "settingsKey \<noteq> subscriptionKey"
  by (simp_all add: userDataKey_def subscriptionKey_def settingsKey_def)

lemma managed_not_auxiliary [simp]:
  "prefix_key @ userDataKey \<noteq> prefix_key @ ''sync_'' @ n"
  "prefix_key @ subscriptionKey \<noteq> prefix_key @ ''sync_'' @ n"
  "prefix_key @ settingsKey \<noteq> prefix_key @ ''sync_'' @ n"
  "prefix_key @ userDataKey \<noteq> prefix_key @ ''offline_queue''"
  "prefix_key @ subscriptionKey \<noteq> prefix_key @ ''offline_queue''"
  "prefix_key @ settingsKey \<noteq> prefix_key @ ''offline_queue''"
  by (simp_all add: userDataKey_def subscriptionKey_def settingsKey_def)

lemma notifyOtherTabs_frame [simp]:
  "currentUser (notifyOtherTabs e ev d s) = currentUser s"
  "listeners (notifyOtherTabs e ev d s) = listeners s"
  "syncInterval (notifyOtherTabs e ev d s) = syncInterval s"
  "offlineQueue (notifyOtherTabs e ev d s) = offlineQueue s"
  "enableNotifications (notifyOtherTabs e ev d s) = enableNotifications s"
  "enableAutoSave (notifyOtherTabs e ev d s) = enableAutoSave s"
  "enableOfflineMode (notifyOtherTabs e ev d s) = enableOfflineMode s"
  "debugMode (notifyOtherTabs e ev d s) = debugMode s"
  "enableCustomEvents (notifyOtherTabs e ev d s) = enableCustomEvents s"
  "logEvents (notifyOtherTabs e ev d s) = logEvents s"
  by (simp_all add: notifyOtherTabs_def Let_def)

lemma notifyOtherTabs_storage [simp]:
  "storage (notifyOtherTabs e ev d s) (prefix_key @ userDataKey) = storage s (prefix_key @ userDataKey)"
  "storage (notifyOtherTabs e ev d s) (prefix_key @ subscriptionKey) = storage s (prefix_key @ subscriptionKey)"
  "storage (notifyOtherTabs e ev d s) (prefix_key @ settingsKey) = storage s (prefix_key @ settingsKey)"
  by (simp_all add: notifyOtherTabs_def Let_def userDataKey_def subscriptionKey_def
      settingsKey_def)

lemma showNotification_frame [simp]:
  "storage (showNotification e m t s) = storage s"
  "currentUser (showNotification e m t s) = currentUser s"
  "listeners (showNotification e m t s) = listeners s"
  "enableCustomEvents (showNotification e m t s) = enableCustomEvents s"
  by (simp_all add: showNotification_def Let_def)

lemma getFromStorage_frame [simp]:
  "storage (snd (getFromStorage k s)) = storage s"
  "currentUser (snd (getFromStorage k s)) = currentUser s"
  "listeners (snd (getFromStorage k s)) = listeners s"
  "syncInterval (snd (getFromStorage k s)) = syncInterval s"
  "offlineQueue (snd (getFromStorage k s)) = offlineQueue s"
  "enableNotifications (snd (getFromStorage k s)) = enableNotifications s"
  "enableAutoSave (snd (getFromStorage k s)) = enableAutoSave s"
  "enableOfflineMode (snd (getFromStorage k s)) = enableOfflineMode s"
  "debugMode (snd (getFromStorage k s)) = debugMode s"
  "enableCustomEvents (snd (getFromStorage k s)) = enableCustomEvents s"
  "logEvents (snd (getFromStorage k s)) = logEvents s"
  by (simp_all add: getFromStorage_def split: option.splits stored.splits)

lemma getFromStorage_value:
  "fst (getFromStorage k s) =
     (case storage s (prefix_key @ k) of Some (Parsed v) \<Rightarrow> v | _ \<Rightarrow> JNull)"
  by (simp add: getFromStorage_def split: option.splits stored.splits)

lemma getFromStorage_Parsed:
  "storage s (prefix_key @ k) = Some (Parsed v) \<Longrightarrow> getFromStorage k s = (v, s)"
  by (simp add: getFromStorage_def)

lemma saveToStorage_frame [simp]:
  "storage (saveToStorage k v s) = (storage s)(prefix_key @ k := Some (serialized v))"
  "currentUser (saveToStorage k v s) = currentUser s"
  "listeners (saveToStorage k v s) = listeners s"
  "syncInterval (saveToStorage k v s) = syncInterval s"
  "offlineQueue (saveToStorage k v s) = offlineQueue s"
  "enableNotifications (saveToStorage k v s) = enableNotifications s"
  "enableAutoSave (saveToStorage k v s) = enableAutoSave s"
  "enableOfflineMode (saveToStorage k v s) = enableOfflineMode s"
  "debugMode (saveToStorage k v s) = debugMode s"
  "enableCustomEvents (saveToStorage k v s) = enableCustomEvents s"
  "logEvents (saveToStorage k v s) = logEvents s"
  "effects (saveToStorage k v s) = effects s @ [SetItem (prefix_key @ k) (serialized v)]"
  by (simp_all add: saveToStorage_def)

lemma removeFromStorage_frame [simp]:
  "storage (removeFromStorage k s) = (storage s)(prefix_key @ k := None)"
  "currentUser (removeFromStorage k s) = currentUser s"
  "listeners (removeFromStorage k s) = listeners s"
  "syncInterval (removeFromStorage k s) = syncInterval s"
  "offlineQueue (removeFromStorage k s) = offlineQueue s"
  "enableNotifications (removeFromStorage k s) = enableNotifications s"
  "enableAutoSave (removeFromStorage k s) = enableAutoSave s"
  "enableOfflineMode (removeFromStorage k s) = enableOfflineMode s"
  "debugMode (removeFromStorage k s) = debugMode s"
  "enableCustomEvents (removeFromStorage k s) = enableCustomEvents s"
  "logEvents (removeFromStorage k s) = logEvents s"
  by (simp_all add: removeFromStorage_def)

lemma clearUserData_cleared:
  "storage (clearUserData e cs s) (prefix_key @ userDataKey) = None"
  "storage (clearUserData e cs s) (prefix_key @ subscriptionKey) = None"
  "currentUser (clearUserData e cs s) = JNull"
  by (simp_all add: clearUserData_def Let_def)

lemma clearUserData_frame [simp]:
  "listeners (clearUserData e cs s) = listeners s"
  "offlineQueue (clearUserData e cs s) = offlineQueue s"
  "enableNotifications (clearUserData e cs s) = enableNotifications s"
  "enableAutoSave (clearUserData e cs s) = enableAutoSave s"
  "enableOfflineMode (clearUserData e cs s) = enableOfflineMode s"
  "debugMode (clearUserData e cs s) = debugMode s"
  "enableCustomEvents (clearUserData e cs s) = enableCustomEvents s"
  "logEvents (clearUserData e cs s) = logEvents s"
  by (simp_all add: clearUserData_def Let_def)

section \<open>Reading the record\<close>

lemma getUserData_cached:
  "\<not> forceRefresh \<Longrightarrow> truthy (currentUser s) \<Longrightarrow> getUserData e forceRefresh s = (currentUser s, s)"
  by (simp add: getUserData_def)

lemma getUserData_unfold:
  "getUserData e forceRefresh s =
     (if \<not> forceRefresh \<and> truthy (currentUser s) then (currentUser s, s)
      else (let userData = fst (getFromStorage userDataKey s);
                s1 = snd (getFromStorage userDataKey s)
            in if \<not> truthy userData then (JNull, s1)
               else if \<not> isSessionValid e userData then (JNull, clearUserData e False s1)
               else (let s2 = snd (getFromStorage subscriptionKey s1);
                         s3 = snd (getFromStorage settingsKey s2)
                     in case completeUserData e s3 userData
                               (fst (getFromStorage subscriptionKey s1))
                               (orElse (fst (getFromStorage settingsKey s2)) (JObj [])) of
                          Inl x \<Rightarrow> (JNull, log ''error'' ''Error getting user data:'' s3)
                        | Inr complete \<Rightarrow>
                            (complete,
                             triggerEvent e ''dataLoaded'' complete
                               (s3\<lparr>currentUser := complete\<rparr>)))))"
  by (simp add: getUserData_def Let_def split_beta)

lemma getUserData_frame [simp]:
  "listeners (snd (getUserData e fr s)) = listeners s"
  "offlineQueue (snd (getUserData e fr s)) = offlineQueue s"
  "enableNotifications (snd (getUserData e fr s)) = enableNotifications s"
  "enableAutoSave (snd (getUserData e fr s)) = enableAutoSave s"
  "enableOfflineMode (snd (getUserData e fr s)) = enableOfflineMode s"
  "debugMode (snd (getUserData e fr s)) = debugMode s"
  "enableCustomEvents (snd (getUserData e fr s)) = enableCustomEvents s"
  "logEvents (snd (getUserData e fr s)) = logEvents s"
  by (simp_all add: getUserData_unfold Let_def split: sum.splits)

lemma getUserData_expired:
  assumes "forceRefresh \<or> \<not> truthy (currentUser s)"
    and "storage s (prefix_key @ userDataKey) = Some (Parsed record)"
    and "truthy record" and "\<not> isSessionValid e record"
  shows "getUserData e forceRefresh s = (JNull, clearUserData e False s)"
  using assms by (auto simp add: getUserData_def getFromStorage_Parsed)

lemma expired_invalid:
  "truthy x \<Longrightarrow> toDate e x = Some t \<Longrightarrow> t < now e \<Longrightarrow> getProp r ''sessionExpiry'' = x
     \<Longrightarrow> \<not> isSessionValid e r"
  by (simp add: isSessionValid_def)

text \<open>
  Claim C1, as amended. For every stored user record whose \<^verbatim>\<open>sessionExpiry\<close> is strictly
  in the past at the time of the call, a \<^verbatim>\<open>getUserData\<close> call that reads the storage
  (\<^verbatim>\<open>forceRefresh\<close>, or nothing cached) returns \<^verbatim>\<open>null\<close>, removes the stored record and
  the stored subscription, and leaves the cache empty. A call without \<^verbatim>\<open>forceRefresh\<close>
  that finds a record in the in-memory cache returns that record and changes nothing: the
  expiry is not looked at on this path.
\<close>

theorem expired_record_cleared_on_storage_read:
  "storage s (prefix_key @ userDataKey) = Some (Parsed record) \<Longrightarrow> truthy record \<Longrightarrow>
   truthy (getProp record ''sessionExpiry'') \<Longrightarrow>
   toDate e (getProp record ''sessionExpiry'') = Some expiry \<Longrightarrow> expiry < now e \<Longrightarrow>
     (forceRefresh \<or> \<not> truthy (currentUser s) \<longrightarrow>
        fst (getUserData e forceRefresh s) = JNull
        \<and> storage (snd (getUserData e forceRefresh s)) (prefix_key @ userDataKey) = None
        \<and> storage (snd (getUserData e forceRefresh s)) (prefix_key @ subscriptionKey) = None
        \<and> currentUser (snd (getUserData e forceRefresh s)) = JNull)
     \<and> (\<not> forceRefresh \<and> truthy (currentUser s) \<longrightarrow>
        getUserData e forceRefresh s = (currentUser s, s))"
proof -
  assume stored: "storage s (prefix_key @ userDataKey) = Some (Parsed record)"
    and rec: "truthy record"
    and exp: "truthy (getProp record ''sessionExpiry'')"
      "toDate e (getProp record ''sessionExpiry'') = Some expiry" "expiry < now e"
  from exp have invalid: "\<not> isSessionValid e record"
    by (simp add: isSessionValid_def)
  show ?thesis
  proof (intro conjI impI)
    assume read: "forceRefresh \<or> \<not> truthy (currentUser s)"
    from getUserData_expired [OF read stored rec invalid]
    have run: "getUserData e forceRefresh s = (JNull, clearUserData e False s)" .
    show "fst (getUserData e forceRefresh s) = JNull" by (simp add: run)
    show "storage (snd (getUserData e forceRefresh s)) (prefix_key @ userDataKey) = None"
      by (simp add: run clearUserData_cleared)
    show "storage (snd (getUserData e forceRefresh s)) (prefix_key @ subscriptionKey) = None"
      by (simp add: run clearUserData_cleared)
    show "currentUser (snd (getUserData e forceRefresh s)) = JNull"
      by (simp add: run clearUserData_cleared)
  next
    assume "\<not> forceRefresh \<and> truthy (currentUser s)"
    then show "getUserData e forceRefresh s = (currentUser s, s)"
      by (simp add: getUserData_cached)
  qed
qed


section \<open>The concrete browser at work\<close>

lemma plans_simps:
  "plansLookup (JStr ''free'') = Own plan_free"
  "plansLookup (JStr ''basic'') = Own plan_basic"
  "plansLookup (JStr ''pro'') = Own plan_pro"
  "plansLookup (JStr ''enterprise'') = Own plan_enterprise"
  by (simp_all add: plansLookup_def plans_def)

lemma ada_session: "isSessionValid (browserAt jan01) adaRecord"
  by (simp add: isSessionValid_def adaRecord_def getProp_def browserAt_def instants_def jan01_def)

lemma ada_image: "profileImage adaRecord = Inr (JStr ''https://cdn.example.com/ada.png'')"
  by (simp add: profileImage_def adaRecord_def getProp_def Let_def sublist_Cons_right prefix_Cons)

lemma ada_usage: "\<exists>usage. calculateUsage (browserAt jan01) (JStr ''basic'') adaRecord = Inr usage"
  by (simp add: calculateUsage_def plans_simps usageSeed_def adaRecord_def getProp_def)

lemma ada_planId: "getProp adaRecord ''planId'' = JStr ''basic''"
  by (simp add: adaRecord_def getProp_def)

lemma ada_complete:
  "\<exists>kvs. completeUserData (browserAt jan01) s adaRecord JNull (JObj []) = Inr (JObj kvs)"
proof -
  from ada_usage obtain usage
    where "calculateUsage (browserAt jan01) (JStr ''basic'') adaRecord = Inr usage" ..
  then show ?thesis
    by (simp add: completeUserData_def Let_def ada_planId orElse_def plans_simps ada_image)
qed

lemma adaStored_fields:
  "currentUser adaStored = JNull"
  "storage adaStored (prefix_key @ userDataKey) = Some (Parsed adaRecord)"
  "storage adaStored (prefix_key @ subscriptionKey) = None"
  "storage adaStored (prefix_key @ settingsKey) = None"
  by (simp_all add: adaStored_def freshState_def)

lemma adaRecord_truthy: "truthy adaRecord"
  by (simp add: adaRecord_def)

lemma adaLoaded_fields:
  "\<exists>kvs. currentUser adaLoaded = JObj kvs"
  "storage adaLoaded (prefix_key @ userDataKey) = Some (Parsed adaRecord)"
proof -
  have reads: "getFromStorage userDataKey adaStored = (adaRecord, adaStored)"
    "getFromStorage subscriptionKey adaStored = (JNull, adaStored)"
    "getFromStorage settingsKey adaStored = (JNull, adaStored)"
    by (simp_all add: getFromStorage_def adaStored_fields)
  obtain kvs where c: "completeUserData (browserAt jan01) adaStored adaRecord JNull (JObj [])
      = Inr (JObj kvs)"
    using ada_complete by blast
  have run: "getUserData (browserAt jan01) False adaStored =
      (JObj kvs, triggerEvent (browserAt jan01) ''dataLoaded'' (JObj kvs)
                   (adaStored\<lparr>currentUser := JObj kvs\<rparr>))"
    by (simp add: getUserData_unfold adaStored_fields reads adaRecord_truthy ada_session
        orElse_def c)
  show "\<exists>kvs. currentUser adaLoaded = JObj kvs"
    by (simp add: adaLoaded_def run)
  show "storage adaLoaded (prefix_key @ userDataKey) = Some (Parsed adaRecord)"
    by (simp add: adaLoaded_def run adaStored_fields)
qed

lemma ada_expiry:
  "truthy (getProp adaRecord ''sessionExpiry'')"
  "toDate (browserAt mar01) (getProp adaRecord ''sessionExpiry'') = Some 1706659200000"
  "(1706659200000 :: int) < now (browserAt mar01)"
  by (simp_all add: adaRecord_def getProp_def browserAt_def instants_def mar01_def)

theorem expired_record_cleared_on_storage_read_witness:
  "storage adaStored (prefix_key @ userDataKey) = Some (Parsed adaRecord)
   \<and> truthy adaRecord
   \<and> truthy (getProp adaRecord ''sessionExpiry'')
   \<and> toDate (browserAt mar01) (getProp adaRecord ''sessionExpiry'') = Some 1706659200000
   \<and> (1706659200000 :: int) < now (browserAt mar01)
   \<and> \<not> truthy (currentUser adaStored)
   \<and> fst (getUserData (browserAt mar01) False adaStored) = JNull
   \<and> storage (snd (getUserData (browserAt mar01) False adaStored)) (prefix_key @ userDataKey)
       = None"
  using expired_record_cleared_on_storage_read [OF adaStored_fields(2) adaRecord_truthy
      ada_expiry, of False]
  by (simp add: adaStored_fields adaRecord_truthy ada_expiry)

text \<open>
  Claim C1 as stated fails on a read served from the cache. The record of
  \<open>adaStored\<close> expires on 31 January 2024. It is loaded on 1 January; on 1 March, with the
  expired record still in the storage, \<^verbatim>\<open>getUserData()\<close> returns the cached object, not
  \<^verbatim>\<open>null\<close>, and removes nothing.
\<close>

theorem expired_record_served_from_cache:
  "storage adaLoaded (prefix_key @ userDataKey) = Some (Parsed adaRecord)
   \<and> toDate (browserAt mar01) (getProp adaRecord ''sessionExpiry'') = Some 1706659200000
   \<and> (1706659200000 :: int) < now (browserAt mar01)
   \<and> fst (getUserData (browserAt mar01) False adaLoaded) \<noteq> JNull
   \<and> storage (snd (getUserData (browserAt mar01) False adaLoaded)) (prefix_key @ userDataKey)
       = Some (Parsed adaRecord)"
proof -
  obtain kvs where cache: "currentUser adaLoaded = JObj kvs"
    using adaLoaded_fields(1) by blast
  then have "getUserData (browserAt mar01) False adaLoaded = (JObj kvs, adaLoaded)"
    by (simp add: getUserData_cached)
  then show ?thesis
    by (simp add: adaLoaded_fields(2) ada_expiry)
qed


section \<open>Objects as association lists\<close>

lemma map_of_assign: "map_of (assign base extra) = map_of base ++ map_of (rev extra)"
proof (induction extra arbitrary: base)
  case Nil
  then show ?case by (simp add: assign_def)
next
  case (Cons p extra)
  have "assign base (p # extra) = assign (AList.update (fst p) (snd p) base) extra"
    by (simp add: assign_def)
  then show ?case
    using Cons.IH [of "AList.update (fst p) (snd p) base"]
    by (cases p) (simp add: update_conv' map_add_upd_left fun_eq_iff map_add_def
        split: option.splits)
qed

lemma distinct_assign: "distinct (map fst base) \<Longrightarrow> distinct (map fst (assign base extra))"
  by (induction extra arbitrary: base) (simp_all add: assign_def distinct_update)

lemma map_of_restWithout:
  "map_of (restWithout ks kvs) k = (if k \<in> set ks then None else map_of kvs k)"
  by (induction kvs) (auto simp add: restWithout_def)


lemma distinct_restWithout: "distinct (map fst kvs) \<Longrightarrow> distinct (map fst (restWithout ks kvs))"
  by (simp add: restWithout_def distinct_map_filter)


lemma map_of_cleaned:
  "distinct (map fst kvs) \<Longrightarrow> map_of kvs k = Some v \<Longrightarrow> jsonClean v \<noteq> JUndef \<Longrightarrow>
     own (jsonClean (JObj kvs)) k = Some (jsonClean v)"
proof (induction kvs)
  case Nil
  then show ?case by simp
next
  case (Cons p kvs)
  show ?case
  proof (cases "fst p = k")
    case True
    with Cons.prems show ?thesis by (cases p) simp
  next
    case False
    with Cons.prems have "own (jsonClean (JObj kvs)) k = Some (jsonClean v)"
      by (intro Cons.IH) (auto split: if_splits)
    with False show ?thesis by (cases p) simp
  qed
qed

lemma serialized_object [simp]: "serialized (JObj kvs) = Parsed (jsonClean (JObj kvs))"
  by (simp add: serialized_def)

lemma serialized_truthy: "truthy v \<Longrightarrow> serialized v = Parsed (jsonClean v)"
  by (auto simp add: serialized_def)

section \<open>Writing the record\<close>

lemma addToOfflineQueue_frame [simp]:
  "currentUser (addToOfflineQueue e a d s) = currentUser s"
  "storage (addToOfflineQueue e a d s) (prefix_key @ userDataKey) = storage s (prefix_key @ userDataKey)"
  "storage (addToOfflineQueue e a d s) (prefix_key @ subscriptionKey) = storage s (prefix_key @ subscriptionKey)"
  "storage (addToOfflineQueue e a d s) (prefix_key @ settingsKey) = storage s (prefix_key @ settingsKey)"
  by (simp_all add: addToOfflineQueue_def Let_def userDataKey_def subscriptionKey_def
      settingsKey_def)

lemma saveUserData_rejected:
  "\<not> validateUserData data \<Longrightarrow>
     saveUserData e data s =
       (False, if enableOfflineMode s
               then addToOfflineQueue e ''save'' data (log ''error'' ''Error saving user data:'' s)
               else log ''error'' ''Error saving user data:'' s)"
  by (simp add: saveUserData_def Let_def)

lemma saveUserData_accepted:
  assumes "validateUserData data"
  shows "fst (saveUserData e data s)"
    and "currentUser (snd (saveUserData e data s)) = JObj (merged e data s)"
    and "storage (snd (saveUserData e data s)) (prefix_key @ userDataKey) =
           Some (Parsed (jsonClean (JObj (restWithout separated (merged e data s)))))"
    and "storage (snd (saveUserData e data s)) (prefix_key @ subscriptionKey) =
           (if truthy (getProp (JObj (merged e data s)) ''subscription'')
            then Some (Parsed (jsonClean (getProp (JObj (merged e data s)) ''subscription'')))
            else storage (snd (getUserData e False s)) (prefix_key @ subscriptionKey))"
    and "storage (snd (saveUserData e data s)) (prefix_key @ settingsKey) =
           (if truthy (getProp (JObj (merged e data s)) ''settings'')
            then Some (Parsed (jsonClean (getProp (JObj (merged e data s)) ''settings'')))
            else storage (snd (getUserData e False s)) (prefix_key @ settingsKey))"
  using assms
  by (simp_all add: saveUserData_def Let_def split_beta merged_def serialized_truthy)

lemma invalid_email_rejected:
  "getProp data ''email'' = JStr em \<Longrightarrow> em \<noteq> [] \<Longrightarrow> \<not> matchesEmail em \<Longrightarrow>
     \<not> validateUserData data"
  by (simp add: validateUserData_def isValidEmail_def)

text \<open>
  Claim C4, as amended. For every patch that fails validation, in particular any patch
  carrying a non-empty \<^verbatim>\<open>email\<close> string that does not match the
  \<^verbatim>\<open>local@domain.tld\<close> shape, \<^verbatim>\<open>saveUserData\<close> returns \<^verbatim>\<open>false\<close>, and the stored user
  record, the stored subscription, the stored settings and the cached record are what they
  were before the call.
\<close>

theorem rejected_patch_persists_nothing:
  "\<not> validateUserData data
     \<or> (getProp data ''email'' = JStr em \<and> em \<noteq> [] \<and> \<not> matchesEmail em) \<Longrightarrow>
   \<not> fst (saveUserData e data s)
   \<and> storage (snd (saveUserData e data s)) (prefix_key @ userDataKey)
       = storage s (prefix_key @ userDataKey)
   \<and> storage (snd (saveUserData e data s)) (prefix_key @ subscriptionKey)
       = storage s (prefix_key @ subscriptionKey)
   \<and> storage (snd (saveUserData e data s)) (prefix_key @ settingsKey)
       = storage s (prefix_key @ settingsKey)
   \<and> currentUser (snd (saveUserData e data s)) = currentUser s"
proof -
  assume "\<not> validateUserData data
     \<or> (getProp data ''email'' = JStr em \<and> em \<noteq> [] \<and> \<not> matchesEmail em)"
  then have "\<not> validateUserData data"
    using invalid_email_rejected by blast
  then show ?thesis
    by (simp add: saveUserData_rejected)
qed

theorem rejected_patch_persists_nothing_witness:
  "getProp (JObj [(''email'', JStr ''bad-email'')]) ''email'' = JStr ''bad-email''
   \<and> \<not> matchesEmail ''bad-email''
   \<and> \<not> fst (saveUserData (browserAt jan01) (JObj [(''email'', JStr ''bad-email'')]) adaStored)
   \<and> storage (snd (saveUserData (browserAt jan01) (JObj [(''email'', JStr ''bad-email'')])
         adaStored)) (prefix_key @ userDataKey) = Some (Parsed adaRecord)"
proof -
  have shape: "\<not> matchesEmail ''bad-email''"
    by (simp add: matchesEmail_def)
  have field: "getProp (JObj [(''email'', JStr ''bad-email'')]) ''email'' = JStr ''bad-email''"
    by (simp add: getProp_def)
  from rejected_patch_persists_nothing [of "JObj [(''email'', JStr ''bad-email'')]"
      "''bad-email''" "browserAt jan01" adaStored] shape field
  show ?thesis
    by (simp add: adaStored_fields)
qed



section \<open>A first save\<close>

lemma adaPatch_valid: "validateUserData adaPatch"
  by (simp add: validateUserData_def adaPatch_def getProp_def isValidEmail_def matchesEmail_def
      emailChar_def isSpace_def plans_simps)

lemma fresh_read: "getUserData e False freshState = (JNull, freshState)"
  by (simp add: getUserData_unfold getFromStorage_def freshState_def)

lemma jan01_iso: "toISOString (browserAt jan01) (now (browserAt jan01)) = ''2024-01-01T00:00:00.000Z''"
  by (simp add: browserAt_def jan01_def instants_def)

lemma adaPatch_merged:
  "merged (browserAt jan01) adaPatch freshState =
     [(''name'', JStr ''Ada Lovelace''), (''email'', JStr ''ada@example.com''),
      (''planId'', JStr ''pro''), (''lastModified'', JStr ''2024-01-01T00:00:00.000Z'')]"
  by (simp add: merged_def fresh_read orElse_def updatedData_def adaPatch_def jan01_iso
      assign_def)


text \<open>
  Claim C2 on a concrete run. Nobody is loaded and nothing is stored; the patch
  \<open>adaPatch\<close> is accepted. The object that the following \<^verbatim>\<open>getUserData()\<close> returns is
  the patch with \<^verbatim>\<open>lastModified\<close>: it has no \<^verbatim>\<open>usage\<close>, no \<^verbatim>\<open>permissions\<close> and no
  \<^verbatim>\<open>subscription\<close>.
\<close>

theorem first_save_then_read_is_not_enriched:
  "fst (saveUserData (browserAt jan01) adaPatch freshState)
   \<and> fst (getUserData (browserAt jan01) False
            (snd (saveUserData (browserAt jan01) adaPatch freshState))) =
       JObj [(''name'', JStr ''Ada Lovelace''), (''email'', JStr ''ada@example.com''),
             (''planId'', JStr ''pro''), (''lastModified'', JStr ''2024-01-01T00:00:00.000Z'')]
   \<and> own (fst (getUserData (browserAt jan01) False
            (snd (saveUserData (browserAt jan01) adaPatch freshState)))) ''usage'' = None
   \<and> own (fst (getUserData (browserAt jan01) False
            (snd (saveUserData (browserAt jan01) adaPatch freshState)))) ''permissions'' = None
   \<and> own (fst (getUserData (browserAt jan01) False
            (snd (saveUserData (browserAt jan01) adaPatch freshState)))) ''subscription'' = None"
proof -
  note after = saveUserData_accepted [OF adaPatch_valid, of "browserAt jan01" freshState]
  have cache: "currentUser (snd (saveUserData (browserAt jan01) adaPatch freshState)) =
      JObj [(''name'', JStr ''Ada Lovelace''), (''email'', JStr ''ada@example.com''),
            (''planId'', JStr ''pro''), (''lastModified'', JStr ''2024-01-01T00:00:00.000Z'')]"
    by (simp add: after(2) adaPatch_merged)
  have "getUserData (browserAt jan01) False (snd (saveUserData (browserAt jan01) adaPatch freshState))
      = (currentUser (snd (saveUserData (browserAt jan01) adaPatch freshState)),
         snd (saveUserData (browserAt jan01) adaPatch freshState))"
    by (rule getUserData_cached) (simp_all add: cache)
  with after(1) cache show ?thesis
    by simp
qed

text \<open>
  Claim C3 on the same run. After that first save, \<^verbatim>\<open>hasAccess('canUseAPI')\<close> reads
  \<^verbatim>\<open>permissions[feature]\<close> on a cached record without \<^verbatim>\<open>permissions\<close>: the
  \<open>TypeError\<close> reaches the caller, since \<^verbatim>\<open>hasAccess\<close> has no \<^verbatim>\<open>try\<close>.
\<close>

theorem hasAccess_throws_after_first_save:
  "fst (hasAccess (browserAt jan01) ''canUseAPI''
          (snd (saveUserData (browserAt jan01) adaPatch freshState))) = Inl TypeError"
proof -
  note after = saveUserData_accepted [OF adaPatch_valid, of "browserAt jan01" freshState]
  have cache: "currentUser (snd (saveUserData (browserAt jan01) adaPatch freshState)) =
      JObj [(''name'', JStr ''Ada Lovelace''), (''email'', JStr ''ada@example.com''),
            (''planId'', JStr ''pro''), (''lastModified'', JStr ''2024-01-01T00:00:00.000Z'')]"
    by (simp add: after(2) adaPatch_merged)
  have "getUserData (browserAt jan01) False (snd (saveUserData (browserAt jan01) adaPatch freshState))
      = (currentUser (snd (saveUserData (browserAt jan01) adaPatch freshState)),
         snd (saveUserData (browserAt jan01) adaPatch freshState))"
    by (rule getUserData_cached) (simp_all add: cache)
  then show ?thesis
    by (simp add: hasAccess_def Let_def cache getProp_def)
qed

section \<open>What an accepted patch leaves in the record\<close>

lemma distinct_merged: "distinct (map fst (merged e data s))"
  by (simp add: merged_def updatedData_def distinct_assign)

lemma merged_field:
  "k \<noteq> ''lastModified'' \<Longrightarrow> map_of (rev (spread data)) k = Some v \<Longrightarrow>
     map_of (merged e data s) k = Some v"
  by (simp add: merged_def updatedData_def map_of_assign map_add_def)

text \<open>
  Claim C4 as stated fails on a patch whose \<^verbatim>\<open>email\<close> is the empty string: it does not
  match the shape, yet \<^verbatim>\<open>_validateUserData\<close> only tests an e-mail that is truthy, so the
  patch is accepted and the stored record is overwritten.
\<close>

theorem empty_email_is_saved:
  "\<not> matchesEmail ''''
   \<and> fst (saveUserData (browserAt jan01) (JObj [(''email'', JStr '''')]) adaStored)
   \<and> storage (snd (saveUserData (browserAt jan01) (JObj [(''email'', JStr '''')]) adaStored))
        (prefix_key @ userDataKey) \<noteq> storage adaStored (prefix_key @ userDataKey)"
proof -
  let ?patch = "JObj [(''email'', JStr '''')]"
  let ?after = "snd (saveUserData (browserAt jan01) ?patch adaStored)"
  let ?rest = "restWithout separated (merged (browserAt jan01) ?patch adaStored)"
  have valid: "validateUserData ?patch"
    by (simp add: validateUserData_def getProp_def)
  note after = saveUserData_accepted [OF valid, of "browserAt jan01" adaStored]
  have "map_of (merged (browserAt jan01) ?patch adaStored) ''email'' = Some (JStr '''')"
    by (rule merged_field) simp_all
  then have "map_of ?rest ''email'' = Some (JStr '''')"
    by (simp add: map_of_restWithout separated_def)
  then have email: "own (jsonClean (JObj ?rest)) ''email'' = Some (JStr '''')"
    using map_of_cleaned [of ?rest "''email''" "JStr ''''"]
    by (simp add: distinct_restWithout distinct_merged)
  have "jsonClean (JObj ?rest) \<noteq> adaRecord"
  proof
    assume same: "jsonClean (JObj ?rest) = adaRecord"
    have "own adaRecord ''email'' = Some (JStr '''')"
      using email unfolding same .
    then show False
      by (simp add: adaRecord_def)
  qed
  then have "storage ?after (prefix_key @ userDataKey) \<noteq> storage adaStored (prefix_key @ userDataKey)"
    by (simp add: after(3) adaStored_fields)
  moreover have "\<not> matchesEmail ''''"
    by (simp add: matchesEmail_def)
  ultimately show ?thesis
    using after(1) by simp
qed


section \<open>Plans\<close>

lemma planHierarchy_literal: "planHierarchy = [''free'', ''basic'', ''pro'', ''enterprise'']"
  by (simp add: planHierarchy_def plans_def)





lemma hasPlan_loaded:
  "getUserData e False s = (user, s1) \<Longrightarrow> truthy user \<Longrightarrow>
     fst (hasPlan e required s) =
       (indexOf planHierarchy required \<le> planIndex (getProp user ''planId''))"
  by (simp add: hasPlan_def Let_def)

lemma not_loaded:
  "getUserData e False s = (user, s1) \<Longrightarrow> \<not> truthy user \<Longrightarrow>
     \<not> fst (hasPlan e required s) \<and> fst (hasAccess e feature s) = Inr False"
  by (simp add: hasPlan_def hasAccess_def Let_def)

lemma adaSaved_cache:
  "currentUser adaSaved =
     JObj [(''name'', JStr ''Ada Lovelace''), (''email'', JStr ''ada@example.com''),
           (''planId'', JStr ''pro''), (''lastModified'', JStr ''2024-01-01T00:00:00.000Z'')]"
  by (simp add: adaSaved_def saveUserData_accepted(2) [OF adaPatch_valid] adaPatch_merged)

lemma adaSaved_read: "getUserData e False adaSaved = (currentUser adaSaved, adaSaved)"
  by (rule getUserData_cached) (simp_all add: adaSaved_cache)

text \<open>
  Claim C6. \<^verbatim>\<open>hasPlan\<close> respects the order free < basic < pro < enterprise of the
  catalogue: for a loaded user, \<^verbatim>\<open>hasPlan(requiredPlan)\<close> is true exactly when the index of
  the user's plan in that order is at least the index of the required plan; so
  \<^verbatim>\<open>hasPlan("pro")\<close> is true for a user on enterprise and false for a user on basic; and
  both \<^verbatim>\<open>hasPlan\<close> and \<^verbatim>\<open>hasAccess\<close> return \<^verbatim>\<open>false\<close> when no user is loaded. The user
  is what \<^verbatim>\<open>getUserData()\<close> returns at that moment.
\<close>

theorem hasPlan_follows_plan_order:
  "planHierarchy = [''free'', ''basic'', ''pro'', ''enterprise'']
   \<and> map (indexOf planHierarchy) planHierarchy = [0, 1, 2, 3]
   \<and> (getUserData e False s = (user, s1) \<longrightarrow>
        (truthy user \<longrightarrow>
           fst (hasPlan e required s) =
             (indexOf planHierarchy required \<le> planIndex (getProp user ''planId'')))
        \<and> (truthy user \<and> getProp user ''planId'' = JStr ''enterprise'' \<longrightarrow>
              fst (hasPlan e ''pro'' s))
        \<and> (truthy user \<and> getProp user ''planId'' = JStr ''basic'' \<longrightarrow>
              \<not> fst (hasPlan e ''pro'' s))
        \<and> (\<not> truthy user \<longrightarrow>
              \<not> fst (hasPlan e required s) \<and> fst (hasAccess e feature s) = Inr False))"
proof (intro conjI impI)
  show "planHierarchy = [''free'', ''basic'', ''pro'', ''enterprise'']"
    by (rule planHierarchy_literal)
  show "map (indexOf planHierarchy) planHierarchy = [0, 1, 2, 3]"
    by (simp add: planHierarchy_literal)
next
  assume "getUserData e False s = (user, s1)" "truthy user"
  then show "fst (hasPlan e required s) =
      (indexOf planHierarchy required \<le> planIndex (getProp user ''planId''))"
    by (rule hasPlan_loaded)
next
  assume "getUserData e False s = (user, s1)"
    "truthy user \<and> getProp user ''planId'' = JStr ''enterprise''"
  then show "fst (hasPlan e ''pro'' s)"
    by (simp add: hasPlan_loaded planHierarchy_literal)
next
  assume run: "getUserData e False s = (user, s1)"
    and "truthy user \<and> getProp user ''planId'' = JStr ''basic''"
  then show "\<not> fst (hasPlan e ''pro'' s)"
    by (simp add: hasPlan_loaded planHierarchy_literal)
next
  assume run: "getUserData e False s = (user, s1)" and none: "\<not> truthy user"
  from not_loaded [OF run none]
  show "\<not> fst (hasPlan e required s)" by simp
  from not_loaded [OF run none]
  show "fst (hasAccess e feature s) = Inr False" by simp
qed

theorem hasPlan_follows_plan_order_witness:
  "getUserData (browserAt feb01) False adaSaved = (currentUser adaSaved, adaSaved)
   \<and> truthy (currentUser adaSaved)
   \<and> getProp (currentUser adaSaved) ''planId'' = JStr ''pro''
   \<and> fst (hasPlan (browserAt feb01) ''basic'' adaSaved)
   \<and> fst (hasPlan (browserAt feb01) ''pro'' adaSaved)
   \<and> \<not> fst (hasPlan (browserAt feb01) ''enterprise'' adaSaved)"
proof -
  have run: "getUserData (browserAt feb01) False adaSaved = (currentUser adaSaved, adaSaved)"
    by (rule adaSaved_read)
  have user: "truthy (currentUser adaSaved)"
    "getProp (currentUser adaSaved) ''planId'' = JStr ''pro''"
    by (simp_all add: adaSaved_cache getProp_def)
  from hasPlan_follows_plan_order [of "browserAt feb01" adaSaved "currentUser adaSaved" adaSaved
      "''basic''" "''x''"] run user
  have basic: "fst (hasPlan (browserAt feb01) ''basic'' adaSaved)"
    by (simp add: planHierarchy_literal)
  from hasPlan_follows_plan_order [of "browserAt feb01" adaSaved "currentUser adaSaved" adaSaved
      "''pro''" "''x''"] run user
  have pro: "fst (hasPlan (browserAt feb01) ''pro'' adaSaved)"
    by (simp add: planHierarchy_literal)
  from hasPlan_follows_plan_order [of "browserAt feb01" adaSaved "currentUser adaSaved" adaSaved
      "''enterprise''" "''x''"] run user
  have enterprise: "\<not> fst (hasPlan (browserAt feb01) ''enterprise'' adaSaved)"
    by (simp add: planHierarchy_literal)
  from run user basic pro enterprise show ?thesis
    by simp
qed




section \<open>The avatar\<close>





lemma colorIndex_bound: "colors \<noteq> [] \<Longrightarrow> colorIndex colors str < length colors"
  by (simp add: colorIndex_def)










section \<open>Changing the plan\<close>

lemma updateUserPlan_unfold:
  "updateUserPlan e planId details s =
     (case plansLookup (JStr planId) of
        Missing \<Rightarrow> (False, log ''error'' ''Error updating plan:'' s)
      | planData \<Rightarrow>
          (if \<not> truthy (fst (getUserData e False s))
           then (False, log ''error'' ''Error updating plan:'' (snd (getUserData e False s)))
           else (let subscription = newSubscription e planId planData details;
                     saved = snd (saveUserData e
                        (JObj [(''planId'', JStr planId), (''plan'', planProp planData ''name'')])
                        (saveToStorage subscriptionKey subscription (snd (getUserData e False s))));
                     emitted = triggerEvent e ''planChanged''
                        (JObj [(''oldPlan'', getProp (fst (getUserData e False s)) ''planId''),
                               (''newPlan'', JStr planId),
                               (''subscription'', subscription)]) saved
                 in (True, if enableNotifications emitted
                           then showNotification e ''Plan updated successfully!'' ''success'' emitted
                           else emitted))))"
  by (simp add: updateUserPlan_def Let_def split_beta split: planref.splits)







lemma plan_patch_valid:
  "plansLookup (JStr planId) = Own planData \<Longrightarrow>
     validateUserData (JObj [(''planId'', JStr planId), (''plan'', name)])"
  by (auto simp add: validateUserData_def getProp_def)

lemma newSubscription_object: "\<exists>kvs. newSubscription e planId planData details = JObj kvs"
  by (simp add: newSubscription_def)


lemma updateUserPlan_accepted:
  assumes "getUserData e False s = (user, s1)"
    and "plansLookup (JStr planId) = Own planData" and "truthy user"
  shows "fst (updateUserPlan e planId details s)"
    and "storage (snd (updateUserPlan e planId details s)) =
           storage (snd (saveUserData e
              (JObj [(''planId'', JStr planId), (''plan'', getProp planData ''name'')])
              (saveToStorage subscriptionKey (newSubscription e planId (Own planData) details)
                 s1)))"
  using assms by (simp_all add: updateUserPlan_unfold Let_def planProp_def)

lemma saveUserData_frame [simp]:
  "listeners (snd (saveUserData e data s)) = listeners s"
  "enableCustomEvents (snd (saveUserData e data s)) = enableCustomEvents s"
  "enableNotifications (snd (saveUserData e data s)) = enableNotifications s"
  by (simp_all add: saveUserData_def Let_def split_beta addToOfflineQueue_def)








section \<open>What the subscription key holds after a plan change\<close>

lemma getUserData_returns_cache:
  "truthy (fst (getUserData e fr s)) \<Longrightarrow>
     currentUser (snd (getUserData e fr s)) = fst (getUserData e fr s)"
  by (simp add: getUserData_unfold Let_def split: if_splits sum.splits)

lemma updateUserPlan_stored_subscription:
  assumes run: "getUserData e False s = (user, s1)"
    and found: "plansLookup (JStr planId) = Own planData" "truthy user"
  shows "storage (snd (updateUserPlan e planId details s)) (prefix_key @ subscriptionKey) =
     (if truthy (case map_of (rev (spread user)) ''subscription'' of
                   Some v \<Rightarrow> v | None \<Rightarrow> JUndef)
      then Some (Parsed (jsonClean (case map_of (rev (spread user)) ''subscription'' of
                                      Some v \<Rightarrow> v | None \<Rightarrow> JUndef)))
      else Some (Parsed (jsonClean (newSubscription e planId (Own planData) details))))"
proof -
  let ?subscription = "newSubscription e planId (Own planData) details"
  let ?patch = "JObj [(''planId'', JStr planId), (''plan'', getProp planData ''name'')]"
  let ?written = "saveToStorage subscriptionKey ?subscription s1"
  have cached: "currentUser s1 = user"
    using getUserData_returns_cache [of e False s] run found(2) by simp
  then have again: "getUserData e False ?written = (user, ?written)"
    using found(2) by (simp add: getUserData_cached)
  obtain kvs where sub: "?subscription = JObj kvs"
    using newSubscription_object by blast
  have valid: "validateUserData ?patch"
    using found by (simp add: plan_patch_valid)
  note after = saveUserData_accepted(4) [OF valid, of e ?written]
  have old: "getProp (JObj (merged e ?patch ?written)) ''subscription''
      = (case map_of (rev (spread user)) ''subscription'' of Some v \<Rightarrow> v | None \<Rightarrow> JUndef)"
    using found(2)
    by (simp add: merged_def again orElse_def updatedData_def getProp_def map_of_assign
        map_add_def split: option.splits)
  have "storage (snd (updateUserPlan e planId details s)) (prefix_key @ subscriptionKey)
      = storage (snd (saveUserData e ?patch ?written)) (prefix_key @ subscriptionKey)"
    by (simp add: updateUserPlan_accepted(2) [OF run found])
  moreover have "serialized ?subscription = Parsed (jsonClean ?subscription)"
    by (simp add: sub)
  ultimately show ?thesis
    unfolding after old by (simp add: again)
qed


lemma completeUserData_subscription:
  "completeUserData e s u JNull st = Inr c \<Longrightarrow>
     spread c \<noteq> [] \<and> map_of (rev (spread c)) ''subscription''
       = Some (JObj [(''status'', JStr ''inactive''), (''planId'', JStr ''free''),
                     (''planName'', JStr ''Free Plan'')])"
  by (auto simp add: completeUserData_def Let_def enhanceSubscription_def
      split: sum.splits planref.splits)

text \<open>
  The other way the subscription key can end: when the loaded record carries a
  \<^verbatim>\<open>subscription\<close> of its own, as every record enriched by \<^verbatim>\<open>getUserData\<close> does, the
  \<^verbatim>\<open>saveUserData\<close> call inside \<^verbatim>\<open>updateUserPlan\<close> writes that one over the subscription
  just built. For the user of \<open>adaLoaded\<close>, who had no subscription, the key holds the
  placeholder of the free plan after \<^verbatim>\<open>updateUserPlan('pro')\<close>.
\<close>

lemma plan_change_overwrites_stored_subscription:
  "fst (updateUserPlan (browserAt feb01) ''pro'' JNull adaLoaded)
   \<and> storedProp (snd (updateUserPlan (browserAt feb01) ''pro'' JNull adaLoaded))
        subscriptionKey ''planId'' = JStr ''free''
   \<and> storedProp (snd (updateUserPlan (browserAt feb01) ''pro'' JNull adaLoaded))
        subscriptionKey ''status'' = JStr ''inactive''"
proof -
  obtain kvs where cache: "currentUser adaLoaded = JObj kvs"
    using adaLoaded_fields(1) by blast
  have run: "getUserData (browserAt feb01) False adaLoaded = (JObj kvs, adaLoaded)"
    using cache by (simp add: getUserData_cached)
  have found: "plansLookup (JStr ''pro'') = Own plan_pro" "truthy (JObj kvs)"
    by (simp_all add: plans_simps)
  have reads: "getFromStorage userDataKey adaStored = (adaRecord, adaStored)"
    "getFromStorage subscriptionKey adaStored = (JNull, adaStored)"
    "getFromStorage settingsKey adaStored = (JNull, adaStored)"
    by (simp_all add: getFromStorage_def adaStored_fields)
  obtain c where c: "completeUserData (browserAt jan01) adaStored adaRecord JNull (JObj [])
      = Inr c"
    using ada_complete by blast
  have "getUserData (browserAt jan01) False adaStored =
      (c, triggerEvent (browserAt jan01) ''dataLoaded'' c (adaStored\<lparr>currentUser := c\<rparr>))"
    by (simp add: getUserData_unfold adaStored_fields reads adaRecord_truthy ada_session
        orElse_def c)
  then have "currentUser adaLoaded = c"
    by (simp add: adaLoaded_def)
  with cache completeUserData_subscription [OF c]
  have old: "map_of (rev kvs) ''subscription''
      = Some (JObj [(''status'', JStr ''inactive''), (''planId'', JStr ''free''),
                    (''planName'', JStr ''Free Plan'')])"
    by simp
  have ok: "fst (updateUserPlan (browserAt feb01) ''pro'' JNull adaLoaded)"
    by (rule updateUserPlan_accepted(1) [OF run found])
  have "storage (snd (updateUserPlan (browserAt feb01) ''pro'' JNull adaLoaded))
      (prefix_key @ subscriptionKey)
      = Some (Parsed (JObj [(''status'', JStr ''inactive''), (''planId'', JStr ''free''),
                            (''planName'', JStr ''Free Plan'')]))"
    by (simp add: updateUserPlan_stored_subscription [OF run found] old)
  with ok show ?thesis
    by (simp add: storedProp_def getProp_def)
qed


section \<open>Reading twice\<close>

lemma calculateUsage_fails_alike:
  "isl (calculateUsage e planId u) = isl (calculateUsage e' planId u)"
  by (simp add: calculateUsage_def split: planref.splits sum.splits)

lemma completeUserData_fails_alike:
  "isl (completeUserData e s u sub st) = isl (completeUserData e' s' u sub st')"
  using calculateUsage_fails_alike [of e
      "orElse (getProp u ''planId'') (orElse (optProp sub ''planId'') (JStr ''free''))" u e']
  by (auto simp add: completeUserData_def Let_def split: sum.splits planref.splits)

lemma completeUserData_object:
  "completeUserData e s u sub st = Inr c \<Longrightarrow> truthy c"
  by (auto simp add: completeUserData_def Let_def split: sum.splits planref.splits)

lemma getUserData_twice:
  "fst (getUserData e' False (snd (getUserData e False s))) = fst (getUserData e False s)"
proof (cases "truthy (currentUser s)")
  case True
  then show ?thesis by (simp add: getUserData_cached)
next
  case False
  let ?u = "fst (getFromStorage userDataKey s)"
  let ?sub = "fst (getFromStorage subscriptionKey s)"
  let ?st = "orElse (fst (getFromStorage settingsKey s)) (JObj [])"
  let ?s3 = "snd (getFromStorage settingsKey (snd (getFromStorage subscriptionKey
                (snd (getFromStorage userDataKey s)))))"
  have reads: "fst (getFromStorage k (snd (getFromStorage k' s0))) = fst (getFromStorage k s0)"
    for k k' s0
    by (simp add: getFromStorage_value)
  consider (absent) "\<not> truthy ?u"
    | (expired) "truthy ?u" "\<not> isSessionValid e ?u"
    | (failed) x where "truthy ?u" "isSessionValid e ?u"
        "completeUserData e ?s3 ?u ?sub ?st = Inl x"
    | (loaded) c where "truthy ?u" "isSessionValid e ?u"
        "completeUserData e ?s3 ?u ?sub ?st = Inr c"
    by (cases "completeUserData e ?s3 ?u ?sub ?st") auto
  then show ?thesis
  proof cases
    case absent
    with False have first: "getUserData e False s = (JNull, snd (getFromStorage userDataKey s))"
      by (simp add: getUserData_unfold Let_def)
    from absent False show ?thesis
      unfolding first by (simp add: getUserData_unfold Let_def reads)
  next
    case expired
    with False have first: "getUserData e False s
        = (JNull, clearUserData e False (snd (getFromStorage userDataKey s)))"
      by (simp add: getUserData_unfold Let_def)
    show ?thesis
      unfolding first
      by (simp add: getUserData_unfold Let_def clearUserData_cleared getFromStorage_value)
  next
    case (failed x)
    with False have first: "getUserData e False s
        = (JNull, log ''error'' ''Error getting user data:'' ?s3)"
      by (simp add: getUserData_unfold Let_def reads)
    let ?s2 = "log ''error'' ''Error getting user data:'' ?s3"
    let ?t3 = "snd (getFromStorage settingsKey (snd (getFromStorage subscriptionKey
                  (snd (getFromStorage userDataKey ?s2)))))"
    have same: "fst (getFromStorage userDataKey ?s2) = ?u"
      "fst (getFromStorage subscriptionKey (snd (getFromStorage userDataKey ?s2))) = ?sub"
      "orElse (fst (getFromStorage settingsKey (snd (getFromStorage subscriptionKey
         (snd (getFromStorage userDataKey ?s2)))))) (JObj []) = ?st"
      "\<not> truthy (currentUser ?s2)"
      using False by (simp_all add: getFromStorage_value)
    have "isl (completeUserData e' ?t3 ?u ?sub ?st)"
      using completeUserData_fails_alike [of e ?s3 ?u ?sub ?st e' ?t3 ?st] failed(3) by simp
    then obtain y where again: "completeUserData e' ?t3 ?u ?sub ?st = Inl y"
      by (cases "completeUserData e' ?t3 ?u ?sub ?st") auto
    have "fst (getUserData e' False ?s2) = JNull"
      using False
      by (simp add: getUserData_unfold [of e' False ?s2] Let_def same again)
    then show ?thesis
      unfolding first by simp
  next
    case (loaded c)
    with False have first: "getUserData e False s
        = (c, triggerEvent e ''dataLoaded'' c (?s3\<lparr>currentUser := c\<rparr>))"
      by (simp add: getUserData_unfold Let_def reads)
    from completeUserData_object [OF loaded(3)] show ?thesis
      unfolding first by (simp add: getUserData_cached)
  qed
qed


text \<open>What holds of the round trip: after an accepted \<^verbatim>\<open>saveUserData(x)\<close> the next
  \<^verbatim>\<open>getUserData()\<close> returns the merged record, which has every property of \<open>x\<close> except
  that \<^verbatim>\<open>lastModified\<close> is the time of the save.\<close>

lemma saved_then_read:
  assumes "validateUserData data"
  shows "fst (getUserData e' False (snd (saveUserData e data s))) = JObj (merged e data s)"
    and "k \<noteq> ''lastModified'' \<Longrightarrow> map_of (rev (spread data)) k = Some v \<Longrightarrow>
           getProp (fst (getUserData e' False (snd (saveUserData e data s)))) k = v"
proof -
  have cache: "currentUser (snd (saveUserData e data s)) = JObj (merged e data s)"
    by (rule saveUserData_accepted(2) [OF assms])
  then show read: "fst (getUserData e' False (snd (saveUserData e data s)))
      = JObj (merged e data s)"
    by (simp add: getUserData_cached)
  show "getProp (fst (getUserData e' False (snd (saveUserData e data s)))) k = v"
    if "k \<noteq> ''lastModified''" "map_of (rev (spread data)) k = Some v"
    using merged_field [OF that, of e s] by (simp add: read getProp_def)
qed


section \<open>The e-mail shape\<close>

lemma emailChar_dot: "emailChar CHR ''.''" "\<not> emailChar CHR ''@''"
  by (simp_all add: emailChar_def isSpace_def)

lemma matchesEmail_complete:
  assumes "a \<noteq> []" "b \<noteq> []" "c \<noteq> []"
    and "list_all emailChar a" "list_all emailChar b" "list_all emailChar c"
  shows "matchesEmail (a @ ''@'' @ b @ ''.'' @ c)"
proof -
  have no_at: "\<forall>x \<in> set a. x \<noteq> CHR ''@''"
    using assms(4) by (auto simp add: list_all_iff emailChar_def)
  have front: "takeWhile (\<lambda>x. x \<noteq> CHR ''@'') (a @ ''@'' @ b @ ''.'' @ c) = a"
    using no_at by (simp add: takeWhile_append2)
  have rear: "dropWhile (\<lambda>x. x \<noteq> CHR ''@'') (a @ ''@'' @ b @ ''.'' @ c) = ''@'' @ b @ ''.'' @ c"
    using no_at by (simp add: dropWhile_append2)
  obtain x b' where b: "b = x # b'"
    using assms(2) by (cases b) auto
  have "butlast (b' @ CHR ''.'' # c) = b' @ CHR ''.'' # butlast c"
    using assms(3) by (simp add: butlast_append)
  then have dot: "CHR ''.'' \<in> set (butlast (tl (b @ ''.'' @ c)))"
    by (simp add: b)
  show ?thesis
    unfolding matchesEmail_def Let_def front rear
    using assms dot by (simp add: emailChar_dot)
qed

lemma matchesEmail_sound:
  assumes "matchesEmail s"
  shows "\<exists>a b c. s = a @ ''@'' @ b @ ''.'' @ c \<and> a \<noteq> [] \<and> b \<noteq> [] \<and> c \<noteq> []
           \<and> list_all emailChar a \<and> list_all emailChar b \<and> list_all emailChar c"
proof -
  let ?a = "takeWhile (\<lambda>x. x \<noteq> CHR ''@'') s"
  let ?r = "dropWhile (\<lambda>x. x \<noteq> CHR ''@'') s"
  from assms have a: "?a \<noteq> []" "list_all emailChar ?a"
    and r: "?r \<noteq> []" and d: "list_all emailChar (tl ?r)"
    and dot: "CHR ''.'' \<in> set (butlast (tl (tl ?r)))"
    by (simp_all add: matchesEmail_def Let_def)
  from r have "hd ?r = CHR ''@''"
    using hd_dropWhile [of "\<lambda>x. x \<noteq> CHR ''@''" s] by simp
  with r have split: "?r = CHR ''@'' # tl ?r"
    by (cases ?r) simp_all
  from dot obtain x rest where tail: "tl ?r = x # rest"
    by (cases "tl ?r") auto
  with dot have "CHR ''.'' \<in> set (butlast rest)"
    by simp
  then obtain p q where mid: "butlast rest = p @ CHR ''.'' # q"
    by (auto simp add: in_set_conv_decomp)
  then have "rest \<noteq> []"
    by auto
  then have "rest = butlast rest @ [last rest]"
    by simp
  with mid have rest: "rest = p @ CHR ''.'' # (q @ [last rest])"
    by simp
  have "s = ?a @ ?r"
    by simp
  also have "?r = ''@'' @ (x # p) @ ''.'' @ (q @ [last rest])"
    using split tail rest by simp
  finally have whole: "s = ?a @ ''@'' @ (x # p) @ ''.'' @ (q @ [last rest])" .
  have "list_all emailChar (x # p @ CHR ''.'' # q @ [last rest])"
    using d tail rest by simp
  then have parts: "list_all emailChar (x # p)" "list_all emailChar (q @ [last rest])"
    by simp_all
  from whole a parts show ?thesis
    by blast
qed

text \<open>\<open>matchesEmail\<close> decides the language of the regular expression
  \<^verbatim>\<open>^[^\s@]+@[^\s@]+\.[^\s@]+$\<close>: three non-empty runs of characters that are neither white
  space nor \<^verbatim>\<open>@\<close>, joined by an \<^verbatim>\<open>@\<close> and a dot.\<close>

lemma matchesEmail_shape:
  "matchesEmail s \<longleftrightarrow>
     (\<exists>a b c. s = a @ ''@'' @ b @ ''.'' @ c \<and> a \<noteq> [] \<and> b \<noteq> [] \<and> c \<noteq> []
        \<and> list_all emailChar a \<and> list_all emailChar b \<and> list_all emailChar c)"
  using matchesEmail_sound matchesEmail_complete by blast


end
